theory Spec2Isabelle
  imports Complex_Main
begin

section \<open>Python values and control flow shared by both functions\<close>

text \<open>
  The exceptions that the modelled parts of \<^verbatim>\<open>train.py\<close> can raise by themselves.
  Failures inside the collaborators (torch, numpy's 64-bit limits, the file system) are
  outside the model.
\<close>

datatype error = IndexError | ValueError | ZeroDivisionError | UnboundLocalError

text \<open>
  A Python function either returns or raises; either way the effects performed so far
  (lines printed, files written, variables assigned) remain, so both outcomes carry the
  state.
\<close>

datatype 's outcome = Returned 's | Raised error 's

fun final :: "'s outcome \<Rightarrow> 's" where
  "final (Returned s) = s"
| "final (Raised e s) = s"

text \<open>\<^verbatim>\<open>for i in <list>: body\<close>, leaving the loop at the first exception.\<close>

fun for_each :: "(nat \<Rightarrow> 's \<Rightarrow> 's outcome) \<Rightarrow> nat list \<Rightarrow> 's \<Rightarrow> 's outcome" where
  "for_each body [] s = Returned s"
| "for_each body (i # rest) s =
     (case body i s of
        Returned s' \<Rightarrow> for_each body rest s'
      | Raised e s' \<Rightarrow> Raised e s')"

text \<open>\<^verbatim>\<open>xs[i]\<close> for an index that is never negative (it comes from \<^verbatim>\<open>range(0, n)\<close>).\<close>

definition getitem :: "'a list \<Rightarrow> nat \<Rightarrow> error + 'a" where
  "getitem xs i = (if i < length xs then Inr (xs ! i) else Inl IndexError)"

section \<open>The geometry walk: \<^verbatim>\<open>print_network_size\<close>\<close>

type_synonym vec3 = "int \<times> int \<times> int"

text \<open>\<^verbatim>\<open>np.repeat(v, 3)\<close> on a scalar: the value on each of the three spatial axes.\<close>

definition np_repeat3 :: "int \<Rightarrow> vec3" where
  "np_repeat3 v = (v, v, v)"

text \<open>
  \<^verbatim>\<open>np.repeat(xs, n)\<close> on a list: every element \<open>n\<close> times; numpy raises ValueError for a
  negative count.
\<close>

definition np_repeat :: "int list \<Rightarrow> int \<Rightarrow> error + int list" where
  "np_repeat xs n =
     (if n < 0 then Inl ValueError else Inr (concat (map (replicate (nat n)) xs)))"

text \<open>
  Modelled from the spec: \<^verbatim>\<open>get_out_dims\<close> is imported from \<^verbatim>\<open>model.py\<close>, which is not
  among the sources. The specification gives, per axis,
  \<^verbatim>\<open>out[d] = floor((input[d] + 2*padding[d] - dilation[d]*(kernel[d]-1) - 1) / stride[d] + 1)\<close>.
  The quotient is a real division followed by a floor. With a zero stride the quotient is
  no finite number, which is the value \<open>None\<close> here.
\<close>

definition out_dim :: "int \<Rightarrow> int \<Rightarrow> int \<Rightarrow> int \<Rightarrow> int \<Rightarrow> int option" where
  "out_dim inp p d k s =
     (if s = 0 then None
      else Some \<lfloor>real_of_int (inp + 2 * p - d * (k - 1) - 1) / real_of_int s + 1\<rfloor>)"

text \<open>
  Modelled from the spec: the contract \<^verbatim>\<open>get_out_dims(input_dims, padding, dilation, kernel,
  stride)\<close> on vectors of three, which applies the formula on each axis to the components of
  that axis.
\<close>

fun get_out_dims ::
  "vec3 \<Rightarrow> vec3 \<Rightarrow> vec3 \<Rightarrow> vec3 \<Rightarrow> vec3 \<Rightarrow> int option \<times> int option \<times> int option" where
  "get_out_dims (i1, i2, i3) (p1, p2, p3) (d1, d2, d3) (k1, k2, k3) (s1, s2, s3) =
     (out_dim i1 p1 d1 k1 s1, out_dim i2 p2 d2 k2 s2, out_dim i3 p3 d3 k3 s3)"

text \<open>
  \<^verbatim>\<open>.astype(np.int16)\<close> converts each component of the floating-point result. numpy leaves a
  value as it is when it lies in the range of a 16-bit signed integer; what it stores for
  a value out of range, or for no finite number, depends on the platform. The conversion
  of one component is therefore a parameter \<open>astype\<close> of the walk, and
  \<open>int16_exact\<close> is what every such conversion satisfies.
\<close>

definition int16_exact :: "(int option \<Rightarrow> int) \<Rightarrow> bool" where
  "int16_exact astype = (\<forall>v. - 32768 \<le> v \<and> v \<le> 32767 \<longrightarrow> astype (Some v) = v)"

text \<open>Whatever the conversion stores, it is a value of a 16-bit signed integer.\<close>

definition int16_valued :: "(int option \<Rightarrow> int) \<Rightarrow> bool" where
  "int16_valued astype = (\<forall>v. - 32768 \<le> astype v \<and> astype v \<le> 32767)"

text \<open>One such conversion: wrap-around modulo \<open>2 ^ 16\<close>, and zero for no finite number.\<close>

definition int16_wrap :: "int option \<Rightarrow> int" where
  "int16_wrap v = (case v of None \<Rightarrow> 0 | Some n \<Rightarrow> (n + 32768) mod 65536 - 32768)"

fun astype_vec3 :: "(int option \<Rightarrow> int) \<Rightarrow> int option \<times> int option \<times> int option \<Rightarrow> vec3" where
  "astype_vec3 astype (a, b, c) = (astype a, astype b, astype c)"

text \<open>
  A value of numpy's 64-bit signed integer type: what is left of an integer after
  wrap-around modulo \<open>2 ^ 64\<close>, and the integers that the type holds as they are.
\<close>

definition int64 :: "int \<Rightarrow> int" where
  "int64 v = (v + 2 ^ 63) mod 2 ^ 64 - 2 ^ 63"

definition fits_int64 :: "int \<Rightarrow> bool" where
  "fits_int64 v = (- (2 ^ 63) \<le> v \<and> v < 2 ^ 63)"

text \<open>
  \<^verbatim>\<open>np.prod\<close> of an array of three integers. numpy multiplies the elements in its 64-bit
  signed integer type (an array of 16-bit integers is promoted to it), every
  multiplication wrapping modulo \<open>2 ^ 64\<close>; the result is the exact product wrapped once.
  The array \<^verbatim>\<open>np.array([x,y,z])\<close> that starts the walk has this type when \<open>x\<close>, \<open>y\<close> and \<open>z\<close>
  fit 64 bits (numpy chooses another type otherwise), which the properties of the
  reported product assume.
\<close>

fun np_prod :: "vec3 \<Rightarrow> int" where
  "np_prod (a, b, c) = int64 (a * b * c)"

text \<open>The command-line arguments that \<^verbatim>\<open>print_network_size\<close> reads.\<close>

record namespace =
  padding :: "int list"
  dilation :: "int list"
  kernel_size :: "int list"
  stride :: "int list"
  conv_layers :: int
  filters :: "int list"
  debug_size :: "int \<times> int \<times> int \<times> int"

text \<open>
  What is printed: \<^verbatim>\<open>Conv Layer i: (c,x,y,z) -> (c',x',y',z')\<close> for each layer and
  \<^verbatim>\<open>FC layers: fc -> int(fc/2) -> 100 -> 1\<close> at the end, as the values that are formatted.
\<close>

datatype line = ConvLayer nat int vec3 int vec3 | FCLayers int int

record walk =
  conv_layer_sizes :: "vec3 list"
  n_channels :: "int list"
  printed :: "line list"

text \<open>
  The four \<^verbatim>\<open>if len(v) == 1: v = np.repeat(v, conv_layers)\<close> statements. A vector of any
  other length is kept as it is.
\<close>

definition broadcast :: "int list \<Rightarrow> int \<Rightarrow> error + int list" where
  "broadcast v n = (if length v = 1 then np_repeat v n else Inr v)"

text \<open>
  The body of the loop over the layers. The subscripts are evaluated in the order of the
  source: \<^verbatim>\<open>padding[i]\<close>, \<^verbatim>\<open>dilation[i]\<close>, \<^verbatim>\<open>kernel[i]\<close>, \<^verbatim>\<open>stride[i]\<close>, then the new
  dimensions are appended, then \<^verbatim>\<open>filters[i]\<close> is read.
\<close>

definition conv_layer ::
  "(int option \<Rightarrow> int) \<Rightarrow> int list \<Rightarrow> int list \<Rightarrow> int list \<Rightarrow> int list \<Rightarrow> int list \<Rightarrow>
   nat \<Rightarrow> walk \<Rightarrow> walk outcome" where
  "conv_layer astype pad dil ker str flt i w =
     (case getitem pad i of Inl e \<Rightarrow> Raised e w | Inr p \<Rightarrow>
     (case getitem dil i of Inl e \<Rightarrow> Raised e w | Inr d \<Rightarrow>
     (case getitem ker i of Inl e \<Rightarrow> Raised e w | Inr k \<Rightarrow>
     (case getitem str i of Inl e \<Rightarrow> Raised e w | Inr s \<Rightarrow>
        (let idims = last (conv_layer_sizes w);
             dims = astype_vec3 astype
                      (get_out_dims idims (np_repeat3 p) (np_repeat3 d) (np_repeat3 k) (np_repeat3 s));
             w1 = w\<lparr>conv_layer_sizes := conv_layer_sizes w @ [dims]\<rparr>
         in (case getitem flt i of Inl e \<Rightarrow> Raised e w1 | Inr f \<Rightarrow>
           (let w2 = w1\<lparr>n_channels := n_channels w1 @ [last (n_channels w1) * f]\<rparr>
            in Returned (w2\<lparr>printed := printed w2 @
                 [ConvLayer i (last (butlast (n_channels w2))) idims
                    (last (n_channels w2)) dims]\<rparr>))))))))"

text \<open>\<^verbatim>\<open>n.bit_length()\<close> of a natural number.\<close>

fun bit_length :: "nat \<Rightarrow> nat" where
  "bit_length n = (if n = 0 then 0 else Suc (bit_length (n div 2)))"

declare bit_length.simps [simp del]

text \<open>
  The float nearest to a natural number: a float has 53 significant bits, so a number
  below \<open>2 ^ 53\<close> is a float, and a longer one loses its \<open>k\<close> low bits, rounded to the
  nearest multiple of \<open>2 ^ k\<close> and to the even one of two that are equally near.
\<close>

definition nearest_float :: "nat \<Rightarrow> nat" where
  "nearest_float n =
     (if n < 2 ^ 53 then n
      else (let k = bit_length n - 53; m = n div 2 ^ k; r = n mod 2 ^ k
            in (if 2 ^ k < 2 * r \<or> (2 * r = 2 ^ k \<and> odd m) then m + 1 else m) * 2 ^ k))"

text \<open>
  \<^verbatim>\<open>int(fc/2)\<close> on a Python integer: the true division gives the float nearest to the
  quotient, which is half the float nearest to \<open>fc\<close>, and \<^verbatim>\<open>int\<close> truncates it towards
  zero. The result is the exact half only while the magnitude of \<open>fc\<close> is below \<open>2 ^ 53\<close>.
\<close>

definition int_half :: "int \<Rightarrow> int" where
  "int_half fc =
     (if 0 \<le> fc then int (nearest_float (nat fc) div 2)
      else - int (nearest_float (nat (- fc)) div 2))"

text \<open>
  A quotient of \<open>2 ^ 1024\<close> or more is no float: Python raises OverflowError for it.
  \<open>in_float_range fc\<close> holds when \<open>fc / 2\<close> is below that bound after rounding; the walk
  below is the walk of the source for the feature counts in this range.
\<close>

definition in_float_range :: "int \<Rightarrow> bool" where
  "in_float_range fc = (nearest_float (nat \<bar>fc\<bar>) < 2 ^ 1025)"

definition print_network_size :: "(int option \<Rightarrow> int) \<Rightarrow> namespace \<Rightarrow> walk outcome" where
  "print_network_size astype args =
     (let nothing = \<lparr>conv_layer_sizes = [], n_channels = [], printed = []\<rparr> in
      (case debug_size args of (t, x, y, z) \<Rightarrow>
      (case broadcast (padding args) (conv_layers args) of
         Inl e \<Rightarrow> Raised e nothing | Inr pad \<Rightarrow>
      (case broadcast (dilation args) (conv_layers args) of
         Inl e \<Rightarrow> Raised e nothing | Inr dil \<Rightarrow>
      (case broadcast (kernel_size args) (conv_layers args) of
         Inl e \<Rightarrow> Raised e nothing | Inr ker \<Rightarrow>
      (case broadcast (stride args) (conv_layers args) of
         Inl e \<Rightarrow> Raised e nothing | Inr str \<Rightarrow>
      (case for_each (conv_layer astype pad dil ker str (filters args))
              [0..<nat (conv_layers args)]
              \<lparr>conv_layer_sizes = [(x, y, z)], n_channels = [t], printed = []\<rparr> of
         Raised e w \<Rightarrow> Raised e w
       | Returned w \<Rightarrow>
           (let fc = np_prod (last (conv_layer_sizes w)) * last (n_channels w)
            in Returned (w\<lparr>printed := printed w @ [FCLayers fc (int_half fc)]\<rparr>)))))))))"

section \<open>Notions used to state the properties of the geometry walk\<close>

text \<open>
  The value that layer \<open>i\<close> reads from a hyperparameter vector: the single value when
  there is exactly one, the \<open>i\<close>-th value otherwise.
\<close>

definition layer_value :: "int list \<Rightarrow> nat \<Rightarrow> int" where
  "layer_value v i = (if length v = 1 then v ! 0 else v ! i)"

text \<open>
  The number of layers for which a hyperparameter vector holds a value once the
  single-value vectors have been repeated.
\<close>

definition avail :: "int list \<Rightarrow> int \<Rightarrow> nat" where
  "avail v n = (if length v = 1 then nat n else length v)"

text \<open>
  The number of layers that every vector, \<^verbatim>\<open>filters\<close> included, holds a value for.
\<close>

definition covered :: "namespace \<Rightarrow> nat" where
  "covered args =
     min (avail (padding args) (conv_layers args))
    (min (avail (dilation args) (conv_layers args))
    (min (avail (kernel_size args) (conv_layers args))
    (min (avail (stride args) (conv_layers args)) (length (filters args)))))"

text \<open>
  The shortest of the five vectors that the loop subscripts.
\<close>

definition min_len :: "int list \<Rightarrow> int list \<Rightarrow> int list \<Rightarrow> int list \<Rightarrow> int list \<Rightarrow> nat" where
  "min_len pad dil ker str flt =
     min (length pad) (min (length dil) (min (length ker) (min (length str) (length flt))))"

text \<open>
  The last line printed, as a function of the walk.
\<close>

definition fc_line :: "walk \<Rightarrow> line" where
  "fc_line w = FCLayers (np_prod (last (conv_layer_sizes w)) * last (n_channels w))
                 (int_half (np_prod (last (conv_layer_sizes w)) * last (n_channels w)))"

text \<open>
  A valid layer specification: every vector has one value or one per layer, and
  \<^verbatim>\<open>filters\<close> has one per layer.
\<close>

definition broadcastable :: "namespace \<Rightarrow> bool" where
  "broadcastable args =
     (0 \<le> conv_layers args
      \<and> (length (padding args) = 1 \<or> length (padding args) = nat (conv_layers args))
      \<and> (length (dilation args) = 1 \<or> length (dilation args) = nat (conv_layers args))
      \<and> (length (kernel_size args) = 1 \<or> length (kernel_size args) = nat (conv_layers args))
      \<and> (length (stride args) = 1 \<or> length (stride args) = nat (conv_layers args))
      \<and> length (filters args) = nat (conv_layers args))"

section \<open>The training controller: \<^verbatim>\<open>train\<close>\<close>

text \<open>
  The controller orchestrates collaborators that are not part of the repository: torch
  (model, loss, optimizer, scheduler), the data loaders, the clock and the file system.
  They are parameters of the model. \<open>'w\<close> is the state of all torch objects together
  (the model's parameters and buffers, the optimizer, the scheduler): they alias one
  another, so every call is a function on the whole. \<open>'b\<close> is a batch
  \<^verbatim>\<open>(x, label)\<close> and \<open>'l\<close> a loss callable. Loss values are Python floats; they are
  modelled as real numbers, so rounding is outside the model.
\<close>

record ('w, 'b, 'l) torch =
  MSELoss :: 'l
  Adam :: "real \<Rightarrow> 'w \<Rightarrow> 'w"
  model_cuda_float :: "'w \<Rightarrow> 'w"
  model_float :: "'w \<Rightarrow> 'w"
  batch_cuda :: "'b \<Rightarrow> 'b"
  forward_loss :: "'l \<Rightarrow> 'b \<Rightarrow> 'w \<Rightarrow> real \<times> 'w"
  optimizer_step :: "'w \<Rightarrow> 'w"
  scheduler_step :: "'w \<Rightarrow> 'w"
  strftime_now :: string

text \<open>
  \<^item> \<open>MSELoss\<close> is \<^verbatim>\<open>torch.nn.MSELoss()\<close>;
  \<^item> \<open>Adam lr\<close> is \<^verbatim>\<open>lambda x: torch.optim.Adam(x.parameters(), lr=lr)\<close>;
  \<^item> \<open>model_cuda_float\<close> is \<^verbatim>\<open>model.cuda().float()\<close> and \<open>model_float\<close> is \<^verbatim>\<open>model.float()\<close>;
  \<^item> \<open>batch_cuda\<close> is \<^verbatim>\<open>x.cuda()\<close> and \<^verbatim>\<open>label.cuda()\<close>;
  \<^item> \<open>forward_loss\<close> is \<^verbatim>\<open>y = model(x); loss = loss_func(y, label.view(-1,1))\<close> and
    \<^verbatim>\<open>float(loss.item())\<close>;
  \<^item> \<open>optimizer_step\<close> is \<^verbatim>\<open>zero_grad(); loss.backward(); model_optimizer.step()\<close>;
  \<^item> \<open>scheduler_step\<close> is \<^verbatim>\<open>model_scheduler.step()\<close>;
  \<^item> \<open>strftime_now\<close> is \<^verbatim>\<open>datetime.now().strftime('%Y-%m-%d_%H-%M-%S')\<close>.
\<close>

text \<open>
  The arguments of \<^verbatim>\<open>train\<close>. The two \<^verbatim>\<open>DataLoader\<close>s (built from the datasets,
  \<^verbatim>\<open>batch_size\<close> and \<^verbatim>\<open>num_workers\<close>, with \<^verbatim>\<open>shuffle=True\<close>) are the batches that each
  yields when it is iterated in epoch \<open>i\<close>.
\<close>

record ('w, 'b, 'l) train_args =
  train_loader :: "nat \<Rightarrow> 'b list"
  test_loader :: "nat \<Rightarrow> 'b list"
  model :: 'w
  epochs :: int
  update_freq :: int
  savepath :: "string option"
  save_freq :: int
  cuda :: bool
  loss_func :: "'l option"
  optimizer :: "('w \<Rightarrow> 'w) option"
  scheduler :: "('w \<Rightarrow> 'w) option"
  silent :: bool

text \<open>
  The effects that can be observed from outside, in the order in which they happen:
  \<^verbatim>\<open>os.makedirs\<close>, \<^verbatim>\<open>model_scheduler.step()\<close> in an epoch, a status line
  \<^verbatim>\<open>Epoch: i Test Loss: t Train Loss: m\<close> (the values that are formatted), the
  assignment to \<^verbatim>\<open>test_loss\<close> in an epoch, and \<^verbatim>\<open>torch.save(model, path)\<close>.
\<close>

datatype 'w event =
    MakeDirs string
  | SchedulerStep nat
  | Progress nat real real
  | TestLoss nat real
  | TorchSave 'w string

text \<open>
  The variables of \<^verbatim>\<open>train\<close> that live across iterations. \<open>index\<close> is the loop variable
  that the training loop (line 111) and the test loop (line 131) share; it is unbound
  (\<open>None\<close>) until one of them has run a batch.
\<close>

record 'w run =
  world :: 'w
  test_loss :: real
  index :: "nat option"
  events :: "'w event list"

text \<open>\<^verbatim>\<open>a % b\<close> on Python integers: the sign of the result follows \<open>b\<close>, and zero raises.\<close>

definition py_mod :: "int \<Rightarrow> int \<Rightarrow> error + int" where
  "py_mod a b = (if b = 0 then Inl ZeroDivisionError else Inr (a mod b))"

text \<open>\<^verbatim>\<open>np.mean\<close> of a list that is never empty where it is called.\<close>

definition np_mean :: "real list \<Rightarrow> real" where
  "np_mean xs = sum_list xs / real (length xs)"

text \<open>\<^verbatim>\<open>'{}'.format(n)\<close> for a natural number.\<close>

definition digit_char :: "nat \<Rightarrow> char" where
  "digit_char d = ''0123456789'' ! d"

function str_nat :: "nat \<Rightarrow> string" where
  "str_nat n = (if n < 10 then [digit_char n] else str_nat (n div 10) @ [digit_char (n mod 10)])"
  by pat_completeness auto
termination
  by (relation "measure id") auto

declare str_nat.simps [simp del]

text \<open>\<^verbatim>\<open>os.path.join(a, b)\<close> of \<^verbatim>\<open>posixpath\<close>, for two components.\<close>

definition path_join :: "string \<Rightarrow> string \<Rightarrow> string" where
  "path_join a b =
     (if b \<noteq> [] \<and> hd b = CHR ''/'' then b
      else if a = [] \<or> last a = CHR ''/'' then a @ b
      else a @ ''/'' @ b)"

text \<open>\<^verbatim>\<open>os.path.join(save_folder, 'epoch-{}.dat'.format(i+1))\<close>.\<close>

definition checkpoint_path :: "string \<Rightarrow> nat \<Rightarrow> string" where
  "checkpoint_path save_folder i = path_join save_folder (''epoch-'' @ str_nat (i + 1) @ ''.dat'')"

text \<open>
  A status line of the progress bar (the description given to \<^verbatim>\<open>tqdm\<close> and each
  \<^verbatim>\<open>set_description\<close>); nothing is shown when \<^verbatim>\<open>disable=silent\<close>.
\<close>

definition describe :: "bool \<Rightarrow> nat \<Rightarrow> real \<Rightarrow> real \<Rightarrow> 'w run \<Rightarrow> 'w run" where
  "describe quiet i t m s = (if quiet then s else s\<lparr>events := events s @ [Progress i t m]\<rparr>)"

text \<open>
  Lines 111 to 124: \<^verbatim>\<open>for index, batch in enumerate(data_iterator)\<close>. \<open>idx\<close> is the value that
  \<^verbatim>\<open>enumerate\<close> gives next and \<open>train_loss\<close> the list of the loss values of this epoch.
\<close>

fun train_batches ::
  "('w, 'b, 'l) torch \<Rightarrow> 'l \<Rightarrow> bool \<Rightarrow> bool \<Rightarrow> nat \<Rightarrow> 'b list \<Rightarrow> nat \<Rightarrow> real list \<Rightarrow>
   'w run \<Rightarrow> 'w run" where
  "train_batches T lf use_cuda quiet i [] idx train_loss s = s"
| "train_batches T lf use_cuda quiet i (batch # rest) idx train_loss s =
     (let b = (if use_cuda then batch_cuda T batch else batch);
          (loss_value, w1) = forward_loss T lf b (world s);
          train_loss' = train_loss @ [loss_value];
          w2 = optimizer_step T w1;
          s' = describe quiet i (test_loss s) (np_mean train_loss')
                 (s\<lparr>world := w2, index := Some idx\<rparr>)
      in train_batches T lf use_cuda quiet i rest (Suc idx) train_loss' s')"

text \<open>
  Lines 131 to 138: \<^verbatim>\<open>for index, batch in enumerate(test_data_loader)\<close>, a forward pass and
  \<^verbatim>\<open>total_loss += float(loss.item())\<close> for each batch; no optimizer step.
\<close>

fun test_batches ::
  "('w, 'b, 'l) torch \<Rightarrow> 'l \<Rightarrow> bool \<Rightarrow> 'b list \<Rightarrow> nat \<Rightarrow> real \<Rightarrow> 'w run \<Rightarrow> real \<times> 'w run" where
  "test_batches T lf use_cuda [] idx total_loss s = (total_loss, s)"
| "test_batches T lf use_cuda (batch # rest) idx total_loss s =
     (let b = (if use_cuda then batch_cuda T batch else batch);
          (loss_value, w1) = forward_loss T lf b (world s)
      in test_batches T lf use_cuda rest (Suc idx) (total_loss + loss_value)
           (s\<lparr>world := w1, index := Some idx\<rparr>))"

text \<open>
  Lines 130 to 139: the test pass and \<^verbatim>\<open>test_loss = total_loss/(index+1)\<close>. Reading
  \<^verbatim>\<open>index\<close> while it is unbound raises UnboundLocalError.
\<close>

definition evaluate ::
  "('w, 'b, 'l) torch \<Rightarrow> 'l \<Rightarrow> ('w, 'b, 'l) train_args \<Rightarrow> nat \<Rightarrow> 'w run \<Rightarrow> 'w run outcome" where
  "evaluate T lf c i s =
     (case test_batches T lf (cuda c) (test_loader c i) 0 0 s of
        (total_loss, s1) \<Rightarrow>
          (case index s1 of
             None \<Rightarrow> Raised UnboundLocalError s1
           | Some k \<Rightarrow>
               Returned (s1\<lparr>test_loss := total_loss / real (k + 1),
                           events := events s1 @ [TestLoss i (total_loss / real (k + 1))]\<rparr>)))"

text \<open>
  Lines 103 to 124: the scheduler step when there is a scheduler, the progress bar with
  its first description, and the training batches.
\<close>

definition train_pass ::
  "('w, 'b, 'l) torch \<Rightarrow> 'l \<Rightarrow> ('w, 'b, 'l) train_args \<Rightarrow> nat \<Rightarrow> 'w run \<Rightarrow> 'w run" where
  "train_pass T lf c i s =
     (let s1 = (if scheduler c \<noteq> None
                then s\<lparr>world := scheduler_step T (world s),
                       events := events s @ [SchedulerStep i]\<rparr>
                else s);
          s2 = describe (silent c) i (test_loss s1) 0 s1
      in train_batches T lf (cuda c) (silent c) i (train_loader c i) 0 [] s2)"

text \<open>\<^verbatim>\<open>save_folder\<close>: \<^verbatim>\<open>os.path.join(savepath, <time>)\<close>, or \<^verbatim>\<open>None\<close>.\<close>

definition save_folder :: "('w, 'b, 'l) torch \<Rightarrow> ('w, 'b, 'l) train_args \<Rightarrow> string option" where
  "save_folder T c =
     (case savepath c of None \<Rightarrow> None | Some p \<Rightarrow> Some (path_join p (strftime_now T)))"

text \<open>
  Lines 129 to 139: \<^verbatim>\<open>if (i+1)%update_freq==0:\<close> and the evaluation.
\<close>

definition evaluation_gate ::
  "('w, 'b, 'l) torch \<Rightarrow> 'l \<Rightarrow> ('w, 'b, 'l) train_args \<Rightarrow> nat \<Rightarrow> 'w run \<Rightarrow> 'w run outcome" where
  "evaluation_gate T lf c i s =
     (case py_mod (int i + 1) (update_freq c) of
        Inl e \<Rightarrow> Raised e s
      | Inr r \<Rightarrow> if r = 0 then evaluate T lf c i s else Returned s)"

text \<open>
  Lines 141 and 142: \<^verbatim>\<open>if (i+1)%save_freq==0 and savepath is not None:\<close> and
  \<^verbatim>\<open>torch.save\<close>. The remainder is computed first, whether or not there is a save path.
\<close>

definition checkpoint_gate ::
  "('w, 'b, 'l) torch \<Rightarrow> ('w, 'b, 'l) train_args \<Rightarrow> nat \<Rightarrow> 'w run \<Rightarrow> 'w run outcome" where
  "checkpoint_gate T c i s =
     (case py_mod (int i + 1) (save_freq c) of
        Inl e \<Rightarrow> Raised e s
      | Inr r \<Rightarrow>
         if r = 0
         then (case save_folder T c of
                 None \<Rightarrow> Returned s
               | Some folder \<Rightarrow>
                   Returned (s\<lparr>events := events s @
                     [TorchSave (world s) (checkpoint_path folder i)]\<rparr>))
         else Returned s)"

text \<open>The body of the loop over the epochs, lines 103 to 142.\<close>

definition epoch ::
  "('w, 'b, 'l) torch \<Rightarrow> 'l \<Rightarrow> ('w, 'b, 'l) train_args \<Rightarrow> nat \<Rightarrow> 'w run \<Rightarrow> 'w run outcome" where
  "epoch T lf c i s =
     (case evaluation_gate T lf c i (train_pass T lf c i s) of
        Raised e s4 \<Rightarrow> Raised e s4
      | Returned s4 \<Rightarrow> checkpoint_gate T c i s4)"

text \<open>
  The preamble, lines 77 to 96: \<^verbatim>\<open>test_loss = 0.0\<close>, the model moved to the device, the
  defaults for an omitted loss function and an omitted optimizer, the optimizer and the
  scheduler built from the model, and the run directory. It yields the loss function and
  the state in which the first epoch starts.
\<close>

definition preamble :: "('w, 'b, 'l) torch \<Rightarrow> ('w, 'b, 'l) train_args \<Rightarrow> 'l \<times> 'w run" where
  "preamble T c =
     (let w1 = (if cuda c then model_cuda_float T (model c) else model_float T (model c));
          lf = (case loss_func c of None \<Rightarrow> MSELoss T | Some l \<Rightarrow> l);
          make = (case optimizer c of None \<Rightarrow> Adam T (1 / 1000000) | Some f \<Rightarrow> f);
          w2 = make w1;
          w3 = (case scheduler c of None \<Rightarrow> w2 | Some f \<Rightarrow> f w2);
          made = (case save_folder T c of None \<Rightarrow> [] | Some folder \<Rightarrow> [MakeDirs folder])
      in (lf, \<lparr>world = w3, test_loss = 0, index = None, events = made\<rparr>))"

text \<open>\<^verbatim>\<open>train\<close>: the preamble and the loop \<^verbatim>\<open>for i in range(0, epochs)\<close>.\<close>

definition train :: "('w, 'b, 'l) torch \<Rightarrow> ('w, 'b, 'l) train_args \<Rightarrow> 'w run outcome" where
  "train T c =
     (case preamble T c of
        (lf, s0) \<Rightarrow> for_each (epoch T lf c) [0..<nat (epochs c)] s0)"

section \<open>Notions used to state the properties of the training controller\<close>

text \<open>Whether the evaluation gate, or the checkpoint gate, is taken in epoch \<open>i\<close>.\<close>

definition evaluates :: "('w, 'b, 'l) train_args \<Rightarrow> nat \<Rightarrow> bool" where
  "evaluates c i = (py_mod (int i + 1) (update_freq c) = Inr 0)"

definition checkpoints :: "('w, 'b, 'l) train_args \<Rightarrow> nat \<Rightarrow> bool" where
  "checkpoints c i = (py_mod (int i + 1) (save_freq c) = Inr 0)"

text \<open>The epochs in which \<^verbatim>\<open>test_loss\<close> was assigned, with the values.\<close>

fun stored :: "'w event \<Rightarrow> (nat \<times> real) list" where
  "stored (TestLoss i v) = [(i, v)]"
| "stored e = []"

definition test_losses :: "'w event list \<Rightarrow> (nat \<times> real) list" where
  "test_losses es = concat (map stored es)"

text \<open>The paths given to \<^verbatim>\<open>torch.save\<close>.\<close>

fun saved_path :: "'w event \<Rightarrow> string list" where
  "saved_path (TorchSave w p) = [p]"
| "saved_path e = []"

definition saved :: "'w event list \<Rightarrow> string list" where
  "saved es = concat (map saved_path es)"

text \<open>The epochs in which the scheduler was stepped.\<close>

fun stepped :: "'w event \<Rightarrow> nat list" where
  "stepped (SchedulerStep i) = [i]"
| "stepped e = []"

definition scheduler_steps :: "'w event list \<Rightarrow> nat list" where
  "scheduler_steps es = concat (map stepped es)"

text \<open>The loss values of a forward pass over a list of batches, from a given state.\<close>

fun forward_losses :: "('w, 'b, 'l) torch \<Rightarrow> 'l \<Rightarrow> bool \<Rightarrow> 'b list \<Rightarrow> 'w \<Rightarrow> real list" where
  "forward_losses T lf use_cuda [] w = []"
| "forward_losses T lf use_cuda (batch # rest) w =
     (let b = (if use_cuda then batch_cuda T batch else batch);
          (loss_value, w1) = forward_loss T lf b w
      in loss_value # forward_losses T lf use_cuda rest w1)"

text \<open>
  Concrete collaborators for the examples: a model with one weight, batches
  \<^verbatim>\<open>(x, label)\<close> of one sample, the squared error as the only loss, and an optimizer step
  that halves the weight.
\<close>

definition toy_torch :: "(real, real \<times> real, unit) torch" where
  "toy_torch =
     \<lparr>MSELoss = (), Adam = (\<lambda>lr w. w), model_cuda_float = (\<lambda>w. w), model_float = (\<lambda>w. w),
      batch_cuda = (\<lambda>b. b),
      forward_loss = (\<lambda>l b w. ((w * fst b - snd b) ^ 2, w)),
      optimizer_step = (\<lambda>w. w / 2), scheduler_step = (\<lambda>w. w),
      strftime_now = ''2019-03-01_12-00-00''\<rparr>"

definition toy_args :: "(real, real \<times> real, unit) train_args" where
  "toy_args =
     \<lparr>train_loader = (\<lambda>i. [(1, 0)]), test_loader = (\<lambda>i. [(1, 1), (2, 1)]), model = 4,
      epochs = 10, update_freq = 3, savepath = Some ''runs'', save_freq = 5, cuda = False,
      loss_func = None, optimizer = None, scheduler = None, silent = False\<rparr>"

section \<open>Properties of the geometry walk\<close>

lemma out_dim_div:
  "s \<noteq> 0 \<Longrightarrow> out_dim i p d k s = Some ((i + 2 * p - d * (k - 1) - 1) div s + 1)"
proof -
  assume "s \<noteq> 0"
  have "\<lfloor>real_of_int (i + 2 * p - d * (k - 1) - 1) / real_of_int s + 1\<rfloor>
        = \<lfloor>real_of_int (i + 2 * p - d * (k - 1) - 1) / real_of_int s\<rfloor> + 1"
    by linarith
  also have "\<dots> = (i + 2 * p - d * (k - 1) - 1) div s + 1"
    by (simp only: floor_divide_of_int_eq)
  finally show ?thesis using \<open>s \<noteq> 0\<close> by (simp only: out_dim_def if_False)
qed

lemma for_each_append:
  "for_each body (xs @ ys) s =
     (case for_each body xs s of
        Returned s' \<Rightarrow> for_each body ys s'
      | Raised e s' \<Rightarrow> Raised e s')"
  by (induction xs arbitrary: s) (auto split: outcome.splits)

lemma for_each_snoc:
  "for_each body (xs @ [i]) s =
     (case for_each body xs s of
        Returned s' \<Rightarrow> body i s'
      | Raised e s' \<Rightarrow> Raised e s')"
  by (simp add: for_each_append split: outcome.splits)

lemma conv_layer_ok:
  assumes "i < length pad" "i < length dil" "i < length ker" "i < length str" "i < length flt"
  shows "conv_layer astype pad dil ker str flt i w =
     Returned (w\<lparr>conv_layer_sizes := conv_layer_sizes w @
                   [astype_vec3 astype (get_out_dims (last (conv_layer_sizes w))
                      (np_repeat3 (pad ! i)) (np_repeat3 (dil ! i))
                      (np_repeat3 (ker ! i)) (np_repeat3 (str ! i)))],
                 n_channels := n_channels w @ [last (n_channels w) * flt ! i],
                 printed := printed w @
                   [ConvLayer i (last (n_channels w)) (last (conv_layer_sizes w))
                      (last (n_channels w) * flt ! i)
                      (astype_vec3 astype (get_out_dims (last (conv_layer_sizes w))
                      (np_repeat3 (pad ! i)) (np_repeat3 (dil ! i))
                      (np_repeat3 (ker ! i)) (np_repeat3 (str ! i))))]\<rparr>)"
  using assms by (simp add: conv_layer_def getitem_def Let_def)

lemma conv_layer_short:
  assumes "\<not> (i < length pad \<and> i < length dil \<and> i < length ker \<and> i < length str \<and> i < length flt)"
  shows "\<exists>w'. conv_layer astype pad dil ker str flt i w = Raised IndexError w'
            \<and> printed w' = printed w"
  using assms by (auto simp add: conv_layer_def getitem_def Let_def)

lemma walk_prefix:
  assumes "n \<le> length pad" "n \<le> length dil" "n \<le> length ker" "n \<le> length str"
    "n \<le> length flt"
  shows "\<exists>w'. for_each (conv_layer astype pad dil ker str flt) [0..<n] w = Returned w'
     \<and> length (printed w') = length (printed w) + n
     \<and> length (conv_layer_sizes w') = length (conv_layer_sizes w) + n
     \<and> n_channels w' = n_channels w @
          map (\<lambda>k. last (n_channels w) * prod_list (take (Suc k) flt)) [0..<n]
     \<and> last (n_channels w') = last (n_channels w) * prod_list (take n flt)
     \<and> (\<forall>j<length (conv_layer_sizes w). conv_layer_sizes w' ! j = conv_layer_sizes w ! j)
     \<and> (conv_layer_sizes w \<noteq> [] \<longrightarrow> (\<forall>i<n.
          conv_layer_sizes w' ! (length (conv_layer_sizes w) + i) =
            astype_vec3 astype (get_out_dims (conv_layer_sizes w' ! (length (conv_layer_sizes w) + i - 1))
              (np_repeat3 (pad ! i)) (np_repeat3 (dil ! i))
              (np_repeat3 (ker ! i)) (np_repeat3 (str ! i)))))"
  using assms
proof (induction n)
  case 0
  then show ?case by simp
next
  case (Suc n)
  then obtain w1 where w1: "for_each (conv_layer astype pad dil ker str flt) [0..<n] w = Returned w1"
    and p1: "length (printed w1) = length (printed w) + n"
    and s1: "length (conv_layer_sizes w1) = length (conv_layer_sizes w) + n"
    and c1: "n_channels w1 = n_channels w @
          map (\<lambda>k. last (n_channels w) * prod_list (take (Suc k) flt)) [0..<n]"
    and l1: "last (n_channels w1) = last (n_channels w) * prod_list (take n flt)"
    and o1: "\<forall>j<length (conv_layer_sizes w). conv_layer_sizes w1 ! j = conv_layer_sizes w ! j"
    and d1: "conv_layer_sizes w \<noteq> [] \<longrightarrow> (\<forall>i<n.
          conv_layer_sizes w1 ! (length (conv_layer_sizes w) + i) =
            astype_vec3 astype (get_out_dims (conv_layer_sizes w1 ! (length (conv_layer_sizes w) + i - 1))
              (np_repeat3 (pad ! i)) (np_repeat3 (dil ! i))
              (np_repeat3 (ker ! i)) (np_repeat3 (str ! i))))"
    by auto
  have lt: "n < length pad" "n < length dil" "n < length ker" "n < length str" "n < length flt"
    using Suc.prems by simp_all
  have tk: "prod_list (take (Suc n) flt) = prod_list (take n flt) * flt ! n"
    using lt by (simp add: take_Suc_conv_app_nth)
  let ?dims = "astype_vec3 astype (get_out_dims (last (conv_layer_sizes w1))
                      (np_repeat3 (pad ! n)) (np_repeat3 (dil ! n))
                      (np_repeat3 (ker ! n)) (np_repeat3 (str ! n)))"
  let ?w2 = "w1\<lparr>conv_layer_sizes := conv_layer_sizes w1 @ [?dims],
                 n_channels := n_channels w1 @ [last (n_channels w1) * flt ! n],
                 printed := printed w1 @
                   [ConvLayer n (last (n_channels w1)) (last (conv_layer_sizes w1))
                      (last (n_channels w1) * flt ! n) ?dims]\<rparr>"
  have step: "for_each (conv_layer astype pad dil ker str flt) [0..<Suc n] w = Returned ?w2"
    using w1 conv_layer_ok [OF lt] by (simp add: for_each_snoc)
  have a: "length (printed ?w2) = length (printed w) + Suc n" using p1 by simp
  have b: "length (conv_layer_sizes ?w2) = length (conv_layer_sizes w) + Suc n" using s1 by simp
  have c: "n_channels ?w2 = n_channels w @
          map (\<lambda>k. last (n_channels w) * prod_list (take (Suc k) flt)) [0..<Suc n]"
    using c1 l1 tk by (simp add: mult.assoc)
  have d: "last (n_channels ?w2) = last (n_channels w) * prod_list (take (Suc n) flt)"
    using l1 tk by (simp add: mult.assoc)
  have e: "\<forall>j<length (conv_layer_sizes w). conv_layer_sizes ?w2 ! j = conv_layer_sizes w ! j"
    using o1 s1 by (simp add: nth_append)
  have f: "conv_layer_sizes w \<noteq> [] \<longrightarrow> (\<forall>i<Suc n.
          conv_layer_sizes ?w2 ! (length (conv_layer_sizes w) + i) =
            astype_vec3 astype (get_out_dims (conv_layer_sizes ?w2 ! (length (conv_layer_sizes w) + i - 1))
              (np_repeat3 (pad ! i)) (np_repeat3 (dil ! i))
              (np_repeat3 (ker ! i)) (np_repeat3 (str ! i))))"
  proof (intro impI allI)
    fix i assume ne: "conv_layer_sizes w \<noteq> []" and i: "i < Suc n"
    have pos: "0 < length (conv_layer_sizes w)" using ne by simp
    show "conv_layer_sizes ?w2 ! (length (conv_layer_sizes w) + i) =
            astype_vec3 astype (get_out_dims (conv_layer_sizes ?w2 ! (length (conv_layer_sizes w) + i - 1))
              (np_repeat3 (pad ! i)) (np_repeat3 (dil ! i))
              (np_repeat3 (ker ! i)) (np_repeat3 (str ! i)))"
    proof (cases "i < n")
      case True
      have "length (conv_layer_sizes w) + i < length (conv_layer_sizes w1)"
        and "length (conv_layer_sizes w) + i - 1 < length (conv_layer_sizes w1)"
        using True s1 by simp_all
      then show ?thesis using d1 ne True by (simp add: nth_append)
    next
      case False
      then have "i = n" using i by simp
      moreover have "last (conv_layer_sizes w1) = conv_layer_sizes w1 ! (length (conv_layer_sizes w) + n - 1)"
      proof -
        have "conv_layer_sizes w1 \<noteq> []" using s1 pos by auto
        then show ?thesis using s1 by (simp add: last_conv_nth)
      qed
      moreover have "length (conv_layer_sizes w) + n - 1 < length (conv_layer_sizes w1)"
        using s1 pos by simp
      ultimately show ?thesis using s1 by (simp add: nth_append)
    qed
  qed
  show ?case using step a b c d e f by blast
qed

lemma walk_short:
  assumes "min_len pad dil ker str flt < n"
  shows "\<exists>w'. for_each (conv_layer astype pad dil ker str flt) [0..<n] w = Raised IndexError w'
     \<and> length (printed w') = length (printed w) + min_len pad dil ker str flt"
proof -
  let ?m = "min_len pad dil ker str flt"
  have le: "?m \<le> length pad" "?m \<le> length dil" "?m \<le> length ker" "?m \<le> length str"
    "?m \<le> length flt"
    by (simp_all add: min_len_def)
  have short: "\<not> (?m < length pad \<and> ?m < length dil \<and> ?m < length ker \<and> ?m < length str
      \<and> ?m < length flt)"
    by (auto simp add: min_len_def min_def split: if_splits)
  obtain w1 where w1: "for_each (conv_layer astype pad dil ker str flt) [0..<?m] w = Returned w1"
    and p1: "length (printed w1) = length (printed w) + ?m"
    using walk_prefix [OF le, of astype w] by blast
  obtain w2 where w2: "conv_layer astype pad dil ker str flt ?m w1 = Raised IndexError w2"
    and p2: "printed w2 = printed w1"
    using conv_layer_short [OF short, of astype w1] by blast
  have "[0..<n] = [0..<?m] @ ?m # [Suc ?m..<n]"
    using assms by (metis le_add_diff_inverse less_imp_le_nat upt_add_eq_append upt_conv_Cons zero_le add.left_neutral)
  then have "for_each (conv_layer astype pad dil ker str flt) [0..<n] w = Raised IndexError w2"
    using w1 w2 by (simp add: for_each_append)
  then show ?thesis using p1 p2 by simp
qed

lemma walk_returned_covers:
  assumes "for_each (conv_layer astype pad dil ker str flt) [0..<n] w = Returned w'"
  shows "n \<le> min_len pad dil ker str flt"
proof (rule ccontr)
  assume "\<not> n \<le> min_len pad dil ker str flt"
  then have "min_len pad dil ker str flt < n" by simp
  from walk_short [OF this, of astype w] assms show False by auto
qed

lemma broadcast_ok:
  assumes "0 \<le> n"
  shows "\<exists>v'. broadcast v n = Inr v' \<and> length v' = avail v n
           \<and> (\<forall>i<avail v n. v' ! i = layer_value v i)"
proof (cases "length v = 1")
  case True
  then obtain a where v: "v = [a]" by (cases v) auto
  show ?thesis using assms
    by (simp add: v broadcast_def np_repeat_def avail_def layer_value_def)
next
  case False
  then show ?thesis by (simp add: broadcast_def avail_def layer_value_def)
qed

lemma broadcast_negative:
  "broadcast v n = Inr v' \<Longrightarrow> n < 0 \<Longrightarrow> v' = v"
  by (auto simp add: broadcast_def np_repeat_def split: if_splits)

lemma pns_unfold:
  assumes "debug_size args = (t, x, y, z)"
    and "broadcast (padding args) (conv_layers args) = Inr pad"
    and "broadcast (dilation args) (conv_layers args) = Inr dil"
    and "broadcast (kernel_size args) (conv_layers args) = Inr ker"
    and "broadcast (stride args) (conv_layers args) = Inr str"
  shows "print_network_size astype args =
     (case for_each (conv_layer astype pad dil ker str (filters args))
              [0..<nat (conv_layers args)]
              \<lparr>conv_layer_sizes = [(x, y, z)], n_channels = [t], printed = []\<rparr> of
         Raised e w \<Rightarrow> Raised e w
       | Returned w \<Rightarrow> Returned (w\<lparr>printed := printed w @ [fc_line w]\<rparr>))"
  using assms by (simp add: print_network_size_def Let_def fc_line_def split: outcome.splits)

lemma pns_returned_unfold:
  assumes "print_network_size astype args = Returned w"
  shows "\<exists>t x y z pad dil ker str w'. debug_size args = (t, x, y, z)
     \<and> broadcast (padding args) (conv_layers args) = Inr pad
     \<and> broadcast (dilation args) (conv_layers args) = Inr dil
     \<and> broadcast (kernel_size args) (conv_layers args) = Inr ker
     \<and> broadcast (stride args) (conv_layers args) = Inr str
     \<and> for_each (conv_layer astype pad dil ker str (filters args))
              [0..<nat (conv_layers args)]
              \<lparr>conv_layer_sizes = [(x, y, z)], n_channels = [t], printed = []\<rparr> = Returned w'
     \<and> w = w'\<lparr>printed := printed w' @ [fc_line w']\<rparr>"
  using assms
  by (auto simp add: print_network_size_def Let_def fc_line_def
      split: sum.splits prod.splits outcome.splits)

lemma fc_line_printed [simp]: "fc_line (w\<lparr>printed := p\<rparr>) = fc_line w"
  by (simp add: fc_line_def)

lemma pns_returned_facts:
  assumes ret: "print_network_size astype args = Returned w"
    and ds: "debug_size args = (t, x, y, z)"
  shows "length (conv_layer_sizes w) = Suc (nat (conv_layers args))
     \<and> length (printed w) = Suc (nat (conv_layers args))
     \<and> last (printed w) = fc_line w
     \<and> n_channels w = t # map (\<lambda>k. t * prod_list (take (Suc k) (filters args)))
                             [0..<nat (conv_layers args)]
     \<and> last (n_channels w) = t * prod_list (take (nat (conv_layers args)) (filters args))
     \<and> conv_layer_sizes w ! 0 = (x, y, z)
     \<and> (\<forall>i<nat (conv_layers args). conv_layer_sizes w ! Suc i =
          astype_vec3 astype (get_out_dims (conv_layer_sizes w ! i)
            (np_repeat3 (layer_value (padding args) i))
            (np_repeat3 (layer_value (dilation args) i))
            (np_repeat3 (layer_value (kernel_size args) i))
            (np_repeat3 (layer_value (stride args) i))))"
proof -
  let ?n = "nat (conv_layers args)"
  let ?w0 = "\<lparr>conv_layer_sizes = [(x, y, z)], n_channels = [t], printed = []\<rparr>"
  obtain pad dil ker str w' where
    bp: "broadcast (padding args) (conv_layers args) = Inr pad"
    and bd: "broadcast (dilation args) (conv_layers args) = Inr dil"
    and bk: "broadcast (kernel_size args) (conv_layers args) = Inr ker"
    and bs: "broadcast (stride args) (conv_layers args) = Inr str"
    and loop: "for_each (conv_layer astype pad dil ker str (filters args)) [0..<?n] ?w0
                 = Returned w'"
    and w: "w = w'\<lparr>printed := printed w' @ [fc_line w']\<rparr>"
    using pns_returned_unfold [OF ret] ds by auto
  have "?n \<le> min_len pad dil ker str (filters args)"
    using walk_returned_covers [OF loop] .
  then have le: "?n \<le> length pad" "?n \<le> length dil" "?n \<le> length ker" "?n \<le> length str"
    "?n \<le> length (filters args)"
    by (simp_all add: min_len_def)
  from walk_prefix [OF le, of astype ?w0] loop
  have p: "length (printed w') = ?n"
    and s: "length (conv_layer_sizes w') = Suc ?n"
    and c: "n_channels w' = t # map (\<lambda>k. t * prod_list (take (Suc k) (filters args))) [0..<?n]"
    and l: "last (n_channels w') = t * prod_list (take ?n (filters args))"
    and o: "conv_layer_sizes w' ! 0 = (x, y, z)"
    and d: "\<forall>i<?n. conv_layer_sizes w' ! Suc i =
          astype_vec3 astype (get_out_dims (conv_layer_sizes w' ! i)
            (np_repeat3 (pad ! i)) (np_repeat3 (dil ! i))
            (np_repeat3 (ker ! i)) (np_repeat3 (str ! i)))"
    by auto
  have lv: "\<forall>i<?n. pad ! i = layer_value (padding args) i
                \<and> dil ! i = layer_value (dilation args) i
                \<and> ker ! i = layer_value (kernel_size args) i
                \<and> str ! i = layer_value (stride args) i"
  proof (cases "0 \<le> conv_layers args")
    case True
    show ?thesis
      using broadcast_ok [OF True, of "padding args"] broadcast_ok [OF True, of "dilation args"]
        broadcast_ok [OF True, of "kernel_size args"] broadcast_ok [OF True, of "stride args"]
        bp bd bk bs le
      by auto
  next
    case False
    then show ?thesis by simp
  qed
  show ?thesis using p s c l o d lv w by simp
qed

lemma covered_min_len:
  assumes "0 \<le> conv_layers args"
    and "broadcast (padding args) (conv_layers args) = Inr pad"
    and "broadcast (dilation args) (conv_layers args) = Inr dil"
    and "broadcast (kernel_size args) (conv_layers args) = Inr ker"
    and "broadcast (stride args) (conv_layers args) = Inr str"
  shows "min_len pad dil ker str (filters args) = covered args"
  using assms(2-5)
    broadcast_ok [OF assms(1), of "padding args"] broadcast_ok [OF assms(1), of "dilation args"]
    broadcast_ok [OF assms(1), of "kernel_size args"] broadcast_ok [OF assms(1), of "stride args"]
  by (auto simp add: min_len_def covered_def)

lemma pns_returns:
  assumes n: "0 \<le> conv_layers args" and cov: "nat (conv_layers args) \<le> covered args"
  shows "\<exists>w. print_network_size astype args = Returned w"
proof -
  obtain t x y z where ds: "debug_size args = (t, x, y, z)" by (cases "debug_size args") auto
  obtain pad dil ker str where
    bp: "broadcast (padding args) (conv_layers args) = Inr pad"
    and bd: "broadcast (dilation args) (conv_layers args) = Inr dil"
    and bk: "broadcast (kernel_size args) (conv_layers args) = Inr ker"
    and bs: "broadcast (stride args) (conv_layers args) = Inr str"
    using broadcast_ok [OF n] by meson
  have m: "min_len pad dil ker str (filters args) = covered args"
    using covered_min_len [OF n bp bd bk bs] .
  then have le: "nat (conv_layers args) \<le> length pad" "nat (conv_layers args) \<le> length dil"
    "nat (conv_layers args) \<le> length ker" "nat (conv_layers args) \<le> length str"
    "nat (conv_layers args) \<le> length (filters args)"
    using cov by (simp_all add: min_len_def)
  from walk_prefix [OF le, of astype "\<lparr>conv_layer_sizes = [(x, y, z)], n_channels = [t], printed = []\<rparr>"]
  show ?thesis by (auto simp add: pns_unfold [OF ds bp bd bk bs])
qed


lemma int16_wrap_exact: "int16_exact int16_wrap"
  by (simp add: int16_exact_def int16_wrap_def)

lemmas walk_eval = print_network_size_def broadcast_def np_repeat_def conv_layer_def
  getitem_def np_repeat3_def Let_def out_dim_div

lemma int64_fits: "fits_int64 v \<Longrightarrow> int64 v = v"
  by (simp add: int64_def fits_int64_def)

lemma int_half_exact:
  "\<bar>fc\<bar> < 2 ^ 53 \<Longrightarrow> int_half fc = (if 0 \<le> fc then fc div 2 else - ((- fc) div 2))"
  by (simp add: int_half_def nearest_float_def nat_less_iff zdiv_int)

lemma int64_2744: "int64 2744 = 2744"
  by (simp add: int64_def)

lemma int_half_43904: "int_half 43904 = 21952"
  by (simp add: int_half_def nearest_float_def)

lemmas count_eval = int64_2744 int_half_43904

lemma int64_wrapped: "int64 9223372037000250000 = - 9223372036709301616"
  by (simp add: int64_def)

lemma int_half_wrapped: "int_half (- 9223372036709301616) = - 4611686018354650624"
  by (simp add: int_half_def nearest_float_def bit_length.simps)

lemma in_float_range_43904: "in_float_range 43904"
  by (simp add: in_float_range_def nearest_float_def)

lemma int16_wrap_valued: "int16_valued int16_wrap"
proof -
  have "- 32768 \<le> int16_wrap v \<and> int16_wrap v \<le> 32767" for v
  proof (cases v)
    case None
    then show ?thesis by (simp add: int16_wrap_def)
  next
    case (Some n)
    have "0 \<le> (n + 32768) mod 65536" "(n + 32768) mod 65536 < 65536" by simp_all
    then show ?thesis using Some by (simp add: int16_wrap_def)
  qed
  then show ?thesis by (simp add: int16_valued_def)
qed

lemma abs_prod3_le:
  fixes a b c :: int
  assumes "\<bar>a\<bar> \<le> m" and "\<bar>b\<bar> \<le> m" and "\<bar>c\<bar> \<le> m"
  shows "\<bar>a * b * c\<bar> \<le> m * m * m"
proof -
  have m: "0 \<le> m" using assms(1) by linarith
  have ab: "\<bar>a\<bar> * \<bar>b\<bar> \<le> m * m"
    by (rule mult_mono) (use assms(1,2) m in simp_all)
  have "0 \<le> m * m" using m by simp
  then have "(\<bar>a\<bar> * \<bar>b\<bar>) * \<bar>c\<bar> \<le> (m * m) * m"
    by (rule mult_mono [OF ab assms(3)]) simp
  then show ?thesis by (simp add: abs_mult)
qed

lemma int16_prod_fits:
  assumes "int16_valued astype"
  shows "fits_int64 (astype u * astype v * astype t)"
proof -
  have b: "\<bar>astype q\<bar> \<le> 32768" for q
  proof -
    from assms have "- 32768 \<le> astype q" "astype q \<le> 32767"
      by (simp_all add: int16_valued_def)
    then show ?thesis by linarith
  qed
  from abs_prod3_le [OF b b b]
  have "\<bar>astype u * astype v * astype t\<bar> \<le> 32768 * 32768 * 32768" .
  then show ?thesis by (simp add: fits_int64_def abs_le_iff)
qed

text \<open>
  C3. On every spatial axis the output size is the floor of
  \<open>(input + 2 * padding - dilation * (kernel - 1) - 1) / stride + 1\<close>, each axis computed from
  its own components only; the floor of the real quotient is the integer division that
  rounds towards minus infinity. For input dimensions \<open>(64, 64, 64)\<close>, kernel 4, stride 2,
  dilation 1 and padding 0 the walk stores \<open>(31, 31, 31)\<close>.
\<close>

theorem get_out_dims_formula:
  "(s1 \<noteq> 0 \<and> s2 \<noteq> 0 \<and> s3 \<noteq> 0 \<longrightarrow>
      get_out_dims (i1, i2, i3) (p1, p2, p3) (d1, d2, d3) (k1, k2, k3) (s1, s2, s3) =
        (Some ((i1 + 2 * p1 - d1 * (k1 - 1) - 1) div s1 + 1),
         Some ((i2 + 2 * p2 - d2 * (k2 - 1) - 1) div s2 + 1),
         Some ((i3 + 2 * p3 - d3 * (k3 - 1) - 1) div s3 + 1)))
   \<and> (int16_exact astype \<longrightarrow>
      conv_layer_sizes (final (print_network_size astype
        \<lparr>padding = [0], dilation = [1], kernel_size = [4], stride = [2], conv_layers = 1,
         filters = [f], debug_size = (c, 64, 64, 64)\<rparr>)) = [(64, 64, 64), (31, 31, 31)])"
proof (intro conjI impI)
  assume "s1 \<noteq> 0 \<and> s2 \<noteq> 0 \<and> s3 \<noteq> 0"
  then show "get_out_dims (i1, i2, i3) (p1, p2, p3) (d1, d2, d3) (k1, k2, k3) (s1, s2, s3) =
        (Some ((i1 + 2 * p1 - d1 * (k1 - 1) - 1) div s1 + 1),
         Some ((i2 + 2 * p2 - d2 * (k2 - 1) - 1) div s2 + 1),
         Some ((i3 + 2 * p3 - d3 * (k3 - 1) - 1) div s3 + 1))"
    by (simp add: out_dim_div)
next
  assume "int16_exact astype"
  then have "astype (Some 31) = 31" by (simp add: int16_exact_def)
  then show "conv_layer_sizes (final (print_network_size astype
        \<lparr>padding = [0], dilation = [1], kernel_size = [4], stride = [2], conv_layers = 1,
         filters = [f], debug_size = (c, 64, 64, 64)\<rparr>)) = [(64, 64, 64), (31, 31, 31)]"
    by (simp add: walk_eval)
qed

text \<open>
  The formula at the example of the specification and at an input with a negative
  numerator and a negative stride.
\<close>

theorem get_out_dims_formula_witness:
  "(2::int) \<noteq> 0 \<and> int16_exact int16_wrap
   \<and> get_out_dims (64, 64, 64) (0, 0, 0) (1, 1, 1) (4, 4, 4) (2, 2, 2) = (Some 31, Some 31, Some 31)
   \<and> get_out_dims (7, 8, 2) (0, 1, 0) (1, 2, 1) (4, 3, 4) (2, 3, - 2) = (Some 2, Some 2, Some 2)
   \<and> conv_layer_sizes (final (print_network_size int16_wrap
        \<lparr>padding = [0], dilation = [1], kernel_size = [4], stride = [2], conv_layers = 1,
         filters = [4], debug_size = (1, 64, 64, 64)\<rparr>)) = [(64, 64, 64), (31, 31, 31)]"
  using get_out_dims_formula [where ?s1.0 = 2 and ?s2.0 = 2 and ?s3.0 = 2
      and ?i1.0 = 64 and ?i2.0 = 64 and ?i3.0 = 64 and ?p1.0 = 0 and ?p2.0 = 0 and ?p3.0 = 0
      and ?d1.0 = 1 and ?d2.0 = 1 and ?d3.0 = 1 and ?k1.0 = 4 and ?k2.0 = 4 and ?k3.0 = 4
      and astype = int16_wrap and f = 4 and c = 1]
    get_out_dims_formula [where ?s1.0 = 2 and ?s2.0 = 3 and ?s3.0 = "- 2"
      and ?i1.0 = 7 and ?i2.0 = 8 and ?i3.0 = 2 and ?p1.0 = 0 and ?p2.0 = 1 and ?p3.0 = 0
      and ?d1.0 = 1 and ?d2.0 = 2 and ?d3.0 = 1 and ?k1.0 = 4 and ?k2.0 = 3 and ?k3.0 = 4
      and astype = int16_wrap and f = 4 and c = 1]
    int16_wrap_exact
  by simp




lemma broadcastable_covered:
  "broadcastable args \<Longrightarrow> covered args = nat (conv_layers args)"
  by (auto simp add: broadcastable_def covered_def avail_def)

text \<open>
  C5. For a valid layer specification and an initial channel count \<open>c0\<close> the walk returns,
  the channel count after \<open>k\<close> layers is \<open>c0\<close> times the product of the first \<open>k\<close> filter
  multipliers, and the final one is \<open>c0\<close> times the product of all of them.
\<close>

theorem channel_count_product:
  assumes "broadcastable args" and "debug_size args = (c0, x, y, z)"
  shows "\<exists>w. print_network_size astype args = Returned w
     \<and> length (n_channels w) = Suc (nat (conv_layers args))
     \<and> (\<forall>k\<le>nat (conv_layers args). n_channels w ! k = c0 * prod_list (take k (filters args)))
     \<and> last (n_channels w) = c0 * prod_list (filters args)"
proof -
  let ?n = "nat (conv_layers args)"
  have n: "0 \<le> conv_layers args" and fl: "length (filters args) = ?n"
    using assms(1) by (simp_all add: broadcastable_def)
  have cov: "?n \<le> covered args" using broadcastable_covered [OF assms(1)] by simp
  obtain w where w: "print_network_size astype args = Returned w"
    using pns_returns [OF n cov] by blast
  from pns_returned_facts [OF w assms(2)]
  have c: "n_channels w = c0 # map (\<lambda>k. c0 * prod_list (take (Suc k) (filters args))) [0..<?n]"
    and l: "last (n_channels w) = c0 * prod_list (take ?n (filters args))"
    by blast+
  have "n_channels w ! k = c0 * prod_list (take k (filters args))" if "k \<le> ?n" for k
  proof (cases k)
    case 0
    then show ?thesis using c by simp
  next
    case (Suc j)
    then have "j < ?n" using that by simp
    then show ?thesis using c Suc by simp
  qed
  then show ?thesis using w c l fl by auto
qed

text \<open>
  Three layers with multipliers 4, 2 and 3 from 5 channels: 120 channels.
\<close>

theorem channel_count_product_witness:
  "broadcastable \<lparr>padding = [0], dilation = [1, 1, 1], kernel_size = [4], stride = [2, 1, 2],
        conv_layers = 3, filters = [4, 2, 3], debug_size = (5, 64, 64, 64)\<rparr>
   \<and> (\<exists>w. print_network_size int16_wrap
        \<lparr>padding = [0], dilation = [1, 1, 1], kernel_size = [4], stride = [2, 1, 2],
         conv_layers = 3, filters = [4, 2, 3], debug_size = (5, 64, 64, 64)\<rparr> = Returned w
        \<and> last (n_channels w) = 120)"
  using channel_count_product [of "\<lparr>padding = [0], dilation = [1, 1, 1], kernel_size = [4],
        stride = [2, 1, 2], conv_layers = 3, filters = [4, 2, 3],
        debug_size = (5, 64, 64, 64)\<rparr>" 5 64 64 64 int16_wrap]
  by (auto simp add: broadcastable_def)

text \<open>
  C6, as stated, fails: with no layer and the initial dimensions \<open>(3037000500, 3037000500, 1)\<close>,
  which fit 64 bits, the product \<open>9223372037000250000\<close> of the final dimensions does not,
  and the walk reports the wrapped value \<open>-9223372036709301616\<close> as the number of features.
\<close>

theorem feature_count_counterexample:
  "print_network_size int16_wrap
        \<lparr>padding = [0], dilation = [1], kernel_size = [4], stride = [2], conv_layers = 0,
         filters = [], debug_size = (1, 3037000500, 3037000500, 1)\<rparr> =
      Returned \<lparr>conv_layer_sizes = [(3037000500, 3037000500, 1)], n_channels = [1],
                printed = [FCLayers (- 9223372036709301616) (- 4611686018354650624)]\<rparr>
   \<and> (3037000500 :: int) * 3037000500 * 1 * 1 = 9223372037000250000
   \<and> (- 9223372036709301616 :: int) \<noteq> 3037000500 * 3037000500 * 1 * 1
   \<and> fits_int64 3037000500 \<and> fits_int64 1"
  by (simp add: walk_eval int64_wrapped int_half_wrapped fits_int64_def)

text \<open>
  C6, amended. For initial dimensions that fit 64 bits and a feature count in the range of
  a float: whenever the walk returns, the last line it printed reports, as the number of
  features entering the first fully-connected layer, \<^verbatim>\<open>np.prod\<close> of the spatial dimensions
  stored for the final layer times the final channel count (which is the initial count
  times the product of the filter multipliers). \<^verbatim>\<open>np.prod\<close> is the product wrapped to 64
  bits: it is the exact product whenever that fits 64 bits, which it does as soon as one
  layer is walked, the dimensions of a layer being 16-bit integers.
\<close>

theorem flattened_feature_count:
  assumes "print_network_size astype args = Returned w"
    and "debug_size args = (c0, x, y, z)"
    and "fits_int64 x \<and> fits_int64 y \<and> fits_int64 z"
    and "in_float_range (np_prod (last (conv_layer_sizes w)) * last (n_channels w))"
  shows "last (printed w) =
           FCLayers (np_prod (last (conv_layer_sizes w)) * last (n_channels w))
                    (int_half (np_prod (last (conv_layer_sizes w)) * last (n_channels w)))
     \<and> last (conv_layer_sizes w) = conv_layer_sizes w ! nat (conv_layers args)
     \<and> last (n_channels w) = c0 * prod_list (take (nat (conv_layers args)) (filters args))
     \<and> (\<forall>a b c. last (conv_layer_sizes w) = (a, b, c) \<longrightarrow>
           np_prod (a, b, c) = int64 (a * b * c)
           \<and> (fits_int64 (a * b * c) \<longrightarrow> np_prod (a, b, c) = a * b * c)
           \<and> (0 < conv_layers args \<and> int16_valued astype \<longrightarrow> np_prod (a, b, c) = a * b * c))"
proof -
  let ?n = "nat (conv_layers args)"
  from pns_returned_facts [OF assms(1,2)]
  have s: "length (conv_layer_sizes w) = Suc ?n"
    and p: "last (printed w) = fc_line w"
    and l: "last (n_channels w) = c0 * prod_list (take ?n (filters args))"
    and d: "\<forall>i<?n. conv_layer_sizes w ! Suc i =
          astype_vec3 astype (get_out_dims (conv_layer_sizes w ! i)
            (np_repeat3 (layer_value (padding args) i))
            (np_repeat3 (layer_value (dilation args) i))
            (np_repeat3 (layer_value (kernel_size args) i))
            (np_repeat3 (layer_value (stride args) i)))"
    by blast+
  have "conv_layer_sizes w \<noteq> []" using s by auto
  then have la: "last (conv_layer_sizes w) = conv_layer_sizes w ! ?n"
    using s by (simp add: last_conv_nth)
  have e: "np_prod (a, b, c) = a * b * c"
    if eq: "last (conv_layer_sizes w) = (a, b, c)" and n: "0 < conv_layers args"
      and v: "int16_valued astype" for a b c
  proof -
    obtain j where j: "?n = Suc j" using n by (cases ?n) auto
    then have "j < ?n" by simp
    with d have "conv_layer_sizes w ! Suc j =
          astype_vec3 astype (get_out_dims (conv_layer_sizes w ! j)
            (np_repeat3 (layer_value (padding args) j))
            (np_repeat3 (layer_value (dilation args) j))
            (np_repeat3 (layer_value (kernel_size args) j))
            (np_repeat3 (layer_value (stride args) j)))"
      by blast
    then obtain g where "(a, b, c) = astype_vec3 astype g" using la eq j by auto
    then obtain g1 g2 g3 where "a = astype g1" "b = astype g2" "c = astype g3"
      by (cases g) auto
    then have "fits_int64 (a * b * c)" using int16_prod_fits [OF v] by simp
    then show ?thesis by (simp add: int64_fits)
  qed
  have f: "np_prod (a, b, c) = a * b * c" if "fits_int64 (a * b * c)" for a b c
    using that by (simp add: int64_fits)
  show ?thesis using p l la e f by (simp add: fc_line_def)
qed

text \<open>
  Two layers from \<open>(1, 64, 64, 64)\<close>: 14 * 14 * 14 * 16 = 43904 features, the product
  \<open>14 * 14 * 14\<close> being exact.
\<close>

theorem flattened_feature_count_witness:
  "print_network_size int16_wrap
        \<lparr>padding = [0], dilation = [1], kernel_size = [4], stride = [2], conv_layers = 2,
         filters = [4, 4], debug_size = (1, 64, 64, 64)\<rparr> =
      Returned \<lparr>conv_layer_sizes = [(64, 64, 64), (31, 31, 31), (14, 14, 14)],
                n_channels = [1, 4, 16],
                printed = [ConvLayer 0 1 (64, 64, 64) 4 (31, 31, 31),
                           ConvLayer 1 4 (31, 31, 31) 16 (14, 14, 14),
                           FCLayers 43904 21952]\<rparr>
   \<and> fits_int64 64 \<and> in_float_range 43904 \<and> int16_valued int16_wrap
   \<and> last [ConvLayer 0 1 (64, 64, 64) 4 (31, 31, 31),
            ConvLayer 1 4 (31, 31, 31) 16 (14, 14, 14),
            FCLayers 43904 21952] = FCLayers (np_prod (14, 14, 14) * 16) (int_half (np_prod (14, 14, 14) * 16))
   \<and> np_prod (14, 14, 14) = 14 * 14 * 14
   \<and> np_prod (14, 14, 14) * 16 = 43904"
proof -
  have r: "print_network_size int16_wrap
        \<lparr>padding = [0], dilation = [1], kernel_size = [4], stride = [2], conv_layers = 2,
         filters = [4, 4], debug_size = (1, 64, 64, 64)\<rparr> =
      Returned \<lparr>conv_layer_sizes = [(64, 64, 64), (31, 31, 31), (14, 14, 14)],
                n_channels = [1, 4, 16],
                printed = [ConvLayer 0 1 (64, 64, 64) 4 (31, 31, 31),
                           ConvLayer 1 4 (31, 31, 31) 16 (14, 14, 14),
                           FCLayers 43904 21952]\<rparr>"
    by (simp add: walk_eval count_eval int16_wrap_def upt_rec eval_nat_numeral)
  have d: "debug_size \<lparr>padding = [0], dilation = [1], kernel_size = [4], stride = [2],
         conv_layers = 2, filters = [4, 4], debug_size = (1, 64, 64, 64)\<rparr> = (1, 64, 64, 64)"
    by simp
  have f: "fits_int64 64 \<and> fits_int64 64 \<and> fits_int64 64" by (simp add: fits_int64_def)
  have i: "in_float_range (np_prod (last (conv_layer_sizes
             \<lparr>conv_layer_sizes = [(64, 64, 64), (31, 31, 31), (14, 14, 14)],
              n_channels = [1, 4, 16],
              printed = [ConvLayer 0 1 (64, 64, 64) 4 (31, 31, 31),
                         ConvLayer 1 4 (31, 31, 31) 16 (14, 14, 14),
                         FCLayers 43904 21952]\<rparr>)) *
           last (n_channels
             \<lparr>conv_layer_sizes = [(64, 64, 64), (31, 31, 31), (14, 14, 14)],
              n_channels = [1, 4, 16],
              printed = [ConvLayer 0 1 (64, 64, 64) 4 (31, 31, 31),
                         ConvLayer 1 4 (31, 31, 31) 16 (14, 14, 14),
                         FCLayers 43904 21952]\<rparr>))"
    by (simp add: int64_2744 in_float_range_43904)
  from flattened_feature_count [OF r d f i] r f in_float_range_43904 int16_wrap_valued
  show ?thesis by (simp add: int64_2744)
qed

section \<open>Properties of the training controller\<close>

lemma for_each_upt_induct:
  assumes init: "P 0 s"
    and ret: "\<And>i s1 s2. i < n \<Longrightarrow> P i s1 \<Longrightarrow> body i s1 = Returned s2 \<Longrightarrow> P (Suc i) s2"
    and rai: "\<And>i s1 e s2. i < n \<Longrightarrow> P i s1 \<Longrightarrow> body i s1 = Raised e s2 \<Longrightarrow> Q s2"
  shows "(\<forall>s'. for_each body [0..<n] s = Returned s' \<longrightarrow> P n s')
       \<and> (\<forall>e s'. for_each body [0..<n] s = Raised e s' \<longrightarrow> Q s')"
  using ret rai
proof (induction n)
  case 0
  then show ?case using init by simp
next
  case (Suc n)
  have ih: "(\<forall>s'. for_each body [0..<n] s = Returned s' \<longrightarrow> P n s')
       \<and> (\<forall>e s'. for_each body [0..<n] s = Raised e s' \<longrightarrow> Q s')"
    using Suc.IH Suc.prems by (meson less_Suc_eq)
  show ?case
  proof (cases "for_each body [0..<n] s")
    case (Returned s1)
    then have p: "P n s1" using ih by simp
    show ?thesis
      using Returned p Suc.prems(1) [of n s1] Suc.prems(2) [of n s1]
      by (simp add: for_each_snoc)
  next
    case (Raised e s1)
    then show ?thesis using ih by (simp add: for_each_snoc)
  qed
qed

lemma describe_fields [simp]:
  "world (describe q i t m s) = world s"
  "test_loss (describe q i t m s) = test_loss s"
  "index (describe q i t m s) = index s"
  by (simp_all add: describe_def)

lemma describe_events:
  "events (describe q i t m s) = events s @ (if q then [] else [Progress i t m])"
  by (simp add: describe_def)

lemma train_batches_test_loss [simp]:
  "test_loss (train_batches T lf cu q i bs idx ls s) = test_loss s"
  by (induction bs arbitrary: idx ls s) (simp_all add: Let_def split: prod.splits split del: if_split)

lemma train_batches_index:
  "index (train_batches T lf cu q i bs idx ls s) =
     (if bs = [] then index s else Some (idx + length bs - 1))"
  by (induction bs arbitrary: idx ls s) (simp_all add: Let_def split: prod.splits split del: if_split, auto)

lemma train_batches_events:
  "\<exists>ms. events (train_batches T lf cu q i bs idx ls s) =
          events s @ map (Progress i (test_loss s)) ms \<and> (q \<longrightarrow> ms = [])"
proof (induction bs arbitrary: idx ls s)
  case Nil
  show ?case by (rule exI [of _ "[]"]) simp
next
  case (Cons b bs)
  obtain lv w1 where f: "forward_loss T lf (if cu then batch_cuda T b else b) (world s) = (lv, w1)"
    by (cases "forward_loss T lf (if cu then batch_cuda T b else b) (world s)") auto
  let ?s' = "describe q i (test_loss s) (np_mean (ls @ [lv]))
               (s\<lparr>world := optimizer_step T w1, index := Some idx\<rparr>)"
  obtain ms where ms: "events (train_batches T lf cu q i bs (Suc idx) (ls @ [lv]) ?s') =
          events ?s' @ map (Progress i (test_loss ?s')) ms" and q: "q \<longrightarrow> ms = []"
    using Cons.IH by blast
  have st: "train_batches T lf cu q i (b # bs) idx ls s =
              train_batches T lf cu q i bs (Suc idx) (ls @ [lv]) ?s'"
    using f by (simp add: Let_def)
  show ?case
  proof (cases q)
    case True
    then show ?thesis using st ms q by (intro exI [of _ "[]"]) (simp add: describe_events)
  next
    case False
    then show ?thesis using st ms
      by (intro exI [of _ "np_mean (ls @ [lv]) # ms"]) (simp add: describe_events)
  qed
qed

lemma test_batches_fields [simp]:
  "test_loss (snd (test_batches T lf cu bs idx tot s)) = test_loss s"
  "events (snd (test_batches T lf cu bs idx tot s)) = events s"
  by (induction bs arbitrary: idx tot s) (simp_all add: Let_def split: prod.splits split del: if_split)

lemma test_batches_index:
  "index (snd (test_batches T lf cu bs idx tot s)) =
     (if bs = [] then index s else Some (idx + length bs - 1))"
  by (induction bs arbitrary: idx tot s) (simp_all add: Let_def split: prod.splits split del: if_split, auto)

lemma test_batches_total:
  "fst (test_batches T lf cu bs idx tot s) =
     tot + sum_list (forward_losses T lf cu bs (world s))"
  by (induction bs arbitrary: idx tot s) (simp_all add: Let_def split: prod.splits split del: if_split)

lemma projections_append [simp]:
  "test_losses (xs @ ys) = test_losses xs @ test_losses ys"
  "saved (xs @ ys) = saved xs @ saved ys"
  "scheduler_steps (xs @ ys) = scheduler_steps xs @ scheduler_steps ys"
  by (simp_all add: test_losses_def saved_def scheduler_steps_def)

lemma projections_Nil [simp]:
  "test_losses [] = []" "saved [] = []" "scheduler_steps [] = []"
  by (simp_all add: test_losses_def saved_def scheduler_steps_def)

lemma projections_Cons [simp]:
  "test_losses (e # es) = stored e @ test_losses es"
  "saved (e # es) = saved_path e @ saved es"
  "scheduler_steps (e # es) = stepped e @ scheduler_steps es"
  by (simp_all add: test_losses_def saved_def scheduler_steps_def)

lemma projections_progress [simp]:
  "test_losses (map (Progress i t) ms) = []"
  "saved (map (Progress i t) ms) = []"
  "scheduler_steps (map (Progress i t) ms) = []"
  by (induction ms) simp_all

lemma train_pass_test_loss [simp]:
  "test_loss (train_pass T lf c i s) = test_loss s"
  by (simp add: train_pass_def Let_def)

lemma train_pass_index:
  "index (train_pass T lf c i s) =
     (if train_loader c i = [] then index s else Some (length (train_loader c i) - 1))"
  by (simp add: train_pass_def Let_def train_batches_index)

lemma train_pass_events:
  "\<exists>ms. events (train_pass T lf c i s) =
          events s @ (if scheduler c \<noteq> None then [SchedulerStep i] else [])
            @ map (Progress i (test_loss s)) ms
        \<and> (silent c \<longrightarrow> ms = [])"
proof -
  define s1 where "s1 = (if scheduler c \<noteq> None
             then s\<lparr>world := scheduler_step T (world s), events := events s @ [SchedulerStep i]\<rparr>
             else s)"
  define s2 where "s2 = describe (silent c) i (test_loss s1) 0 s1"
  have tp: "train_pass T lf c i s =
              train_batches T lf (cuda c) (silent c) i (train_loader c i) 0 [] s2"
    by (simp add: train_pass_def Let_def s1_def s2_def)
  have t1: "test_loss s1 = test_loss s" by (simp add: s1_def)
  have e1: "events s1 = events s @ (if scheduler c \<noteq> None then [SchedulerStep i] else [])"
    by (simp add: s1_def)
  have t2: "test_loss s2 = test_loss s" by (simp add: s2_def t1)
  have e2: "events s2 = events s1 @ (if silent c then [] else [Progress i (test_loss s) 0])"
    by (simp add: s2_def describe_events t1)
  from train_batches_events [of T lf "cuda c" "silent c" i "train_loader c i" 0 "[]" s2]
  obtain ms where ms: "events (train_pass T lf c i s) =
          events s2 @ map (Progress i (test_loss s)) ms" and q: "silent c \<longrightarrow> ms = []"
    unfolding tp t2 by blast
  show ?thesis
  proof (cases "silent c")
    case True
    have "events (train_pass T lf c i s) =
            events s @ (if scheduler c \<noteq> None then [SchedulerStep i] else [])
              @ map (Progress i (test_loss s)) []"
      using ms q True e1 e2 by simp
    then show ?thesis using True by blast
  next
    case False
    have "events (train_pass T lf c i s) =
            events s @ (if scheduler c \<noteq> None then [SchedulerStep i] else [])
              @ map (Progress i (test_loss s)) (0 # ms)"
      using ms False e1 e2 by simp
    then show ?thesis using False by blast
  qed
qed

lemma train_pass_projections [simp]:
  "test_losses (events (train_pass T lf c i s)) = test_losses (events s)"
  "saved (events (train_pass T lf c i s)) = saved (events s)"
  "scheduler_steps (events (train_pass T lf c i s)) =
     scheduler_steps (events s) @ (if scheduler c \<noteq> None then [i] else [])"
  using train_pass_events [of T lf c i s] by auto

lemma train_pass_progress:
  assumes "Progress j t m \<in> set (events (train_pass T lf c i s))"
  shows "Progress j t m \<in> set (events s) \<or> (j = i \<and> t = test_loss s)"
  using train_pass_events [of T lf c i s] assms by (auto split: if_splits)

lemma train_pass_silent:
  assumes "silent c" and "Progress j t m \<in> set (events (train_pass T lf c i s))"
  shows "Progress j t m \<in> set (events s)"
  using train_pass_events [of T lf c i s] assms by (auto split: if_splits)

lemma evaluate_unfold:
  "evaluate T lf c i s =
     (case index (snd (test_batches T lf (cuda c) (test_loader c i) 0 0 s)) of
        None \<Rightarrow> Raised UnboundLocalError (snd (test_batches T lf (cuda c) (test_loader c i) 0 0 s))
      | Some k \<Rightarrow>
          Returned ((snd (test_batches T lf (cuda c) (test_loader c i) 0 0 s))
            \<lparr>test_loss := sum_list (forward_losses T lf (cuda c) (test_loader c i) (world s))
                            / real (k + 1),
             events := events s @
               [TestLoss i (sum_list (forward_losses T lf (cuda c) (test_loader c i) (world s))
                            / real (k + 1))]\<rparr>))"
proof -
  obtain tot s1 where ts: "test_batches T lf (cuda c) (test_loader c i) 0 0 s = (tot, s1)"
    by (cases "test_batches T lf (cuda c) (test_loader c i) 0 0 s") auto
  have "tot = sum_list (forward_losses T lf (cuda c) (test_loader c i) (world s))"
    using test_batches_total [of T lf "cuda c" "test_loader c i" 0 0 s] ts by simp
  moreover have "events s1 = events s"
    using test_batches_fields(2) [of T lf "cuda c" "test_loader c i" 0 0 s] ts by simp
  ultimately show ?thesis using ts by (simp add: evaluate_def split: option.splits)
qed

lemma evaluate_nonempty:
  assumes "test_loader c i \<noteq> []"
  shows "evaluate T lf c i s =
     Returned ((snd (test_batches T lf (cuda c) (test_loader c i) 0 0 s))
       \<lparr>test_loss := sum_list (forward_losses T lf (cuda c) (test_loader c i) (world s))
                       / real (length (test_loader c i)),
        events := events s @
          [TestLoss i (sum_list (forward_losses T lf (cuda c) (test_loader c i) (world s))
                       / real (length (test_loader c i)))]\<rparr>)"
proof -
  have "index (snd (test_batches T lf (cuda c) (test_loader c i) 0 0 s)) =
          Some (length (test_loader c i) - 1)"
    using assms by (simp add: test_batches_index)
  moreover have "length (test_loader c i) - 1 + 1 = length (test_loader c i)"
    using assms by (cases "test_loader c i") simp_all
  ultimately show ?thesis by (simp add: evaluate_unfold)
qed

lemma evaluate_empty_bound:
  assumes "test_loader c i = []" and "index s = Some k"
  shows "evaluate T lf c i s =
     Returned (s\<lparr>test_loss := 0 / real (k + 1),
                 events := events s @ [TestLoss i (0 / real (k + 1))]\<rparr>)"
  using assms by (simp add: evaluate_def)

lemma evaluate_empty_unbound:
  assumes "test_loader c i = []" and "index s = None"
  shows "evaluate T lf c i s = Raised UnboundLocalError s"
  using assms by (simp add: evaluate_def)

lemma evaluate_Returned:
  assumes "evaluate T lf c i s = Returned s'"
  shows "events s' = events s @ [TestLoss i (test_loss s')]" and "index s' \<noteq> None"
  using assms by (auto simp add: evaluate_unfold test_batches_index split: option.splits)

lemma evaluate_Raised:
  assumes "evaluate T lf c i s = Raised e s'"
  shows "e = UnboundLocalError" and "events s' = events s" and "test_loss s' = test_loss s"
    and "test_loader c i = []" and "index s = None"
  using assms by (auto simp add: evaluate_unfold test_batches_index split: option.splits if_splits)

lemma evaluates_iff:
  "evaluates c i \<longleftrightarrow> update_freq c \<noteq> 0 \<and> (int i + 1) mod update_freq c = 0"
  by (simp add: evaluates_def py_mod_def)

lemma checkpoints_iff:
  "checkpoints c i \<longleftrightarrow> save_freq c \<noteq> 0 \<and> (int i + 1) mod save_freq c = 0"
  by (simp add: checkpoints_def py_mod_def)

lemma evaluation_gate_zero:
  "update_freq c = 0 \<Longrightarrow> evaluation_gate T lf c i s = Raised ZeroDivisionError s"
  by (simp add: evaluation_gate_def py_mod_def)

lemma evaluation_gate_skip:
  "update_freq c \<noteq> 0 \<Longrightarrow> \<not> evaluates c i \<Longrightarrow> evaluation_gate T lf c i s = Returned s"
  by (simp add: evaluation_gate_def py_mod_def evaluates_def)

lemma evaluation_gate_taken:
  "evaluates c i \<Longrightarrow> evaluation_gate T lf c i s = evaluate T lf c i s"
  by (simp add: evaluation_gate_def py_mod_def evaluates_def split: if_splits)

lemma checkpoint_gate_zero:
  "save_freq c = 0 \<Longrightarrow> checkpoint_gate T c i s = Raised ZeroDivisionError s"
  by (simp add: checkpoint_gate_def py_mod_def)

lemma checkpoint_gate_nonzero:
  "save_freq c \<noteq> 0 \<Longrightarrow> checkpoint_gate T c i s =
     Returned (s\<lparr>events := events s @
       (if checkpoints c i
        then (case save_folder T c of None \<Rightarrow> []
              | Some folder \<Rightarrow> [TorchSave (world s) (checkpoint_path folder i)])
        else [])\<rparr>)"
  by (simp add: checkpoint_gate_def py_mod_def checkpoints_def split: option.splits)

lemma checkpoint_gate_final:
  "events (final (checkpoint_gate T c i s)) = events s @
       (if checkpoints c i
        then (case save_folder T c of None \<Rightarrow> []
              | Some folder \<Rightarrow> [TorchSave (world s) (checkpoint_path folder i)])
        else [])"
  "test_loss (final (checkpoint_gate T c i s)) = test_loss s"
  "index (final (checkpoint_gate T c i s)) = index s"
  by (cases "save_freq c = 0";
      simp add: checkpoint_gate_zero checkpoint_gate_nonzero checkpoints_iff)+

lemma evaluation_gate_final_skip:
  "\<not> evaluates c i \<Longrightarrow> final (evaluation_gate T lf c i s) = s"
  by (cases "update_freq c = 0") (simp_all add: evaluation_gate_zero evaluation_gate_skip)

text \<open>What an epoch leaves behind, whatever its outcome.\<close>

lemma epoch_final_test_loss_skip:
  assumes "\<not> evaluates c i"
  shows "test_loss (final (epoch T lf c i s)) = test_loss s"
proof (cases "update_freq c = 0")
  case True
  then show ?thesis by (simp add: epoch_def evaluation_gate_zero)
next
  case False
  then show ?thesis using assms
    by (simp add: epoch_def evaluation_gate_skip checkpoint_gate_final)
qed

lemma epoch_final_test_loss_taken:
  assumes "evaluates c i" and "test_loader c i \<noteq> []"
  shows "test_loss (final (epoch T lf c i s)) =
     sum_list (forward_losses T lf (cuda c) (test_loader c i) (world (train_pass T lf c i s)))
       / real (length (test_loader c i))"
  using assms
  by (simp add: epoch_def evaluation_gate_taken evaluate_nonempty checkpoint_gate_final)

lemma epoch_Returned:
  assumes "epoch T lf c i s = Returned s'"
  shows "update_freq c \<noteq> 0" and "save_freq c \<noteq> 0"
    and "test_losses (events s') =
           test_losses (events s) @ (if evaluates c i then [(i, test_loss s')] else [])"
    and "saved (events s') = saved (events s) @
           (if checkpoints c i
            then (case save_folder T c of None \<Rightarrow> [] | Some folder \<Rightarrow> [checkpoint_path folder i])
            else [])"
    and "\<not> evaluates c i \<Longrightarrow> test_loss s' = test_loss s"
proof -
  let ?s3 = "train_pass T lf c i s"
  obtain s4 where g: "evaluation_gate T lf c i ?s3 = Returned s4"
    and k: "checkpoint_gate T c i s4 = Returned s'"
    using assms by (auto simp add: epoch_def split: outcome.splits)
  show u: "update_freq c \<noteq> 0" using g by (auto simp add: evaluation_gate_zero)
  show sf: "save_freq c \<noteq> 0" using k by (auto simp add: checkpoint_gate_zero)
  have s': "s' = s4\<lparr>events := events s4 @
       (if checkpoints c i
        then (case save_folder T c of None \<Rightarrow> []
              | Some folder \<Rightarrow> [TorchSave (world s4) (checkpoint_path folder i)])
        else [])\<rparr>"
    using k sf by (simp add: checkpoint_gate_nonzero)
  have e4: "events s4 = events ?s3 @ (if evaluates c i then [TestLoss i (test_loss s4)] else [])"
    and t4: "\<not> evaluates c i \<Longrightarrow> test_loss s4 = test_loss s"
  proof -
    show "events s4 = events ?s3 @ (if evaluates c i then [TestLoss i (test_loss s4)] else [])"
    proof (cases "evaluates c i")
      case True
      then show ?thesis using g evaluate_Returned(1) [of T lf c i ?s3 s4]
        by (simp add: evaluation_gate_taken)
    next
      case False
      then show ?thesis using g u by (simp add: evaluation_gate_skip)
    qed
    show "\<not> evaluates c i \<Longrightarrow> test_loss s4 = test_loss s"
      using g u by (auto simp add: evaluation_gate_skip)
  qed
  show "test_losses (events s') =
           test_losses (events s) @ (if evaluates c i then [(i, test_loss s')] else [])"
    using s' e4 by (simp split: option.splits)
  show "saved (events s') = saved (events s) @
           (if checkpoints c i
            then (case save_folder T c of None \<Rightarrow> [] | Some folder \<Rightarrow> [checkpoint_path folder i])
            else [])"
    using s' e4 by (simp split: option.splits)
  show "\<not> evaluates c i \<Longrightarrow> test_loss s' = test_loss s"
    using s' t4 by simp
qed

lemma epoch_returns:
  assumes "update_freq c \<noteq> 0" and "save_freq c \<noteq> 0"
    and "evaluates c i \<longrightarrow> test_loader c i \<noteq> [] \<or> train_loader c i \<noteq> [] \<or> index s \<noteq> None"
  shows "\<exists>s'. epoch T lf c i s = Returned s'"
proof (cases "evaluates c i")
  case False
  then show ?thesis using assms(1,2)
    by (simp add: epoch_def evaluation_gate_skip checkpoint_gate_nonzero)
next
  case True
  let ?s3 = "train_pass T lf c i s"
  have "\<exists>s4. evaluate T lf c i ?s3 = Returned s4"
  proof (cases "test_loader c i = []")
    case False
    then show ?thesis by (simp add: evaluate_nonempty)
  next
    case e: True
    then have "index ?s3 \<noteq> None" using assms(3) True by (auto simp add: train_pass_index)
    then obtain k where "index ?s3 = Some k" by auto
    then show ?thesis using e by (simp add: evaluate_empty_bound)
  qed
  then show ?thesis using True assms(2)
    by (auto simp add: epoch_def evaluation_gate_taken checkpoint_gate_nonzero)
qed

lemma evaluation_gate_final_events:
  "\<exists>ev. events (final (evaluation_gate T lf c i s)) = events s @ ev
        \<and> (ev = [] \<or> (\<exists>v. ev = [TestLoss i v]))"
proof (cases "evaluation_gate T lf c i s")
  case (Returned s4)
  show ?thesis
  proof (cases "evaluates c i")
    case True
    then show ?thesis using Returned evaluate_Returned(1) [of T lf c i s s4]
      by (simp add: evaluation_gate_taken)
  next
    case False
    then have "final (evaluation_gate T lf c i s) = s" by (rule evaluation_gate_final_skip)
    then show ?thesis by simp
  qed
next
  case (Raised e s4)
  show ?thesis
  proof (cases "evaluates c i")
    case True
    then show ?thesis using Raised evaluate_Raised(2) [of T lf c i s e s4]
      by (simp add: evaluation_gate_taken)
  next
    case False
    then have "final (evaluation_gate T lf c i s) = s" by (rule evaluation_gate_final_skip)
    then show ?thesis by simp
  qed
qed

lemma epoch_final_events:
  "\<exists>ms ev sv. events (final (epoch T lf c i s)) =
       events s @ (if scheduler c \<noteq> None then [SchedulerStep i] else [])
         @ map (Progress i (test_loss s)) ms @ ev @ sv
     \<and> (silent c \<longrightarrow> ms = [])
     \<and> (ev = [] \<or> (\<exists>v. ev = [TestLoss i v]))
     \<and> (sv = [] \<or> (\<exists>w folder. save_folder T c = Some folder
                       \<and> sv = [TorchSave w (checkpoint_path folder i)]))"
proof -
  let ?s3 = "train_pass T lf c i s"
  obtain ms where ms: "events ?s3 =
       events s @ (if scheduler c \<noteq> None then [SchedulerStep i] else [])
         @ map (Progress i (test_loss s)) ms" and q: "silent c \<longrightarrow> ms = []"
    using train_pass_events [of T lf c i s] by blast
  obtain ev where ev: "events (final (evaluation_gate T lf c i ?s3)) = events ?s3 @ ev"
    and evc: "ev = [] \<or> (\<exists>v. ev = [TestLoss i v])"
    using evaluation_gate_final_events [of T lf c i ?s3] by blast
  show ?thesis
  proof (cases "evaluation_gate T lf c i ?s3")
    case (Raised e s4)
    then have "events (final (epoch T lf c i s)) =
       events s @ (if scheduler c \<noteq> None then [SchedulerStep i] else [])
         @ map (Progress i (test_loss s)) ms @ ev @ []"
      using ms ev by (simp add: epoch_def)
    then show ?thesis using q evc by blast
  next
    case (Returned s4)
    define sv where "sv = (if checkpoints c i
        then (case save_folder T c of None \<Rightarrow> []
              | Some folder \<Rightarrow> [TorchSave (world s4) (checkpoint_path folder i)])
        else [])"
    have svc: "sv = [] \<or> (\<exists>w folder. save_folder T c = Some folder
                       \<and> sv = [TorchSave w (checkpoint_path folder i)])"
      by (auto simp add: sv_def split: option.splits)
    have "events (final (epoch T lf c i s)) =
       events s @ (if scheduler c \<noteq> None then [SchedulerStep i] else [])
         @ map (Progress i (test_loss s)) ms @ ev @ sv"
      using Returned ms ev checkpoint_gate_final(1) [of T c i s4]
      by (simp add: epoch_def sv_def)
    then show ?thesis using q evc svc by blast
  qed
qed

lemma epoch_final_saved_none:
  assumes "savepath c = None"
  shows "saved (events (final (epoch T lf c i s))) = saved (events s)"
proof -
  have "save_folder T c = None" using assms by (simp add: save_folder_def)
  then show ?thesis using epoch_final_events [of T lf c i s] by auto
qed


lemma epoch_final_progress:
  assumes "Progress j t m \<in> set (events (final (epoch T lf c i s)))"
  shows "Progress j t m \<in> set (events s) \<or> (j = i \<and> t = test_loss s)"
  using epoch_final_events [of T lf c i s] assms by (auto split: if_splits)

lemma preamble_state:
  assumes "preamble T c = (lf, s0)"
  shows "test_loss s0 = 0" and "index s0 = None"
    and "test_losses (events s0) = []" and "saved (events s0) = []"
    and "scheduler_steps (events s0) = []"
    and "Progress j t m \<notin> set (events s0)"
    and "lf = (case loss_func c of None \<Rightarrow> MSELoss T | Some l \<Rightarrow> l)"
  using assms by (auto simp add: preamble_def Let_def split: option.splits)

lemma train_unfold:
  assumes "preamble T c = (lf, s0)"
  shows "train T c = for_each (epoch T lf c) [0..<nat (epochs c)] s0"
  using assms by (simp add: train_def)

lemma for_each_returns:
  assumes "\<And>i s1. i < n \<Longrightarrow> \<exists>s2. body i s1 = Returned s2"
  shows "\<exists>s'. for_each body [0..<n] s = Returned s'"
proof -
  have "(\<forall>s'. for_each body [0..<n] s = Returned s' \<longrightarrow> True)
       \<and> (\<forall>e s'. for_each body [0..<n] s = Raised e s' \<longrightarrow> False)"
  proof (rule for_each_upt_induct [where P = "\<lambda>i s. True" and Q = "\<lambda>s. False"])
    show True ..
  next
    fix i s1 e s2 assume "i < n" and "body i s1 = Raised e s2"
    then show False using assms [of i s1] by auto
  qed simp
  then show ?thesis by (cases "for_each body [0..<n] s") auto
qed

lemma train_returns:
  assumes "update_freq c \<noteq> 0" and "save_freq c \<noteq> 0"
    and "\<forall>i<nat (epochs c). test_loader c i \<noteq> [] \<or> train_loader c i \<noteq> []"
  shows "\<exists>s'. train T c = Returned s'"
proof -
  obtain lf s0 where p: "preamble T c = (lf, s0)" by (cases "preamble T c") auto
  have "\<exists>s'. for_each (epoch T lf c) [0..<nat (epochs c)] s0 = Returned s'"
  proof (rule for_each_returns)
    fix i s1 assume "i < nat (epochs c)"
    then have "test_loader c i \<noteq> [] \<or> train_loader c i \<noteq> []" using assms(3) by simp
    then show "\<exists>s2. epoch T lf c i s1 = Returned s2"
      using epoch_returns [OF assms(1,2), of i s1 T lf] by blast
  qed
  then show ?thesis using train_unfold [OF p] by simp
qed

lemma train_Returned_events:
  assumes "train T c = Returned s'"
  shows "map fst (test_losses (events s')) = filter (evaluates c) [0..<nat (epochs c)]"
    and "saved (events s') =
           (case save_folder T c of None \<Rightarrow> []
            | Some folder \<Rightarrow>
                map (checkpoint_path folder) (filter (checkpoints c) [0..<nat (epochs c)]))"
proof -
  obtain lf s0 where p: "preamble T c = (lf, s0)" by (cases "preamble T c") auto
  let ?P = "\<lambda>k s. map fst (test_losses (events s)) = filter (evaluates c) [0..<k]
      \<and> saved (events s) =
           (case save_folder T c of None \<Rightarrow> []
            | Some folder \<Rightarrow> map (checkpoint_path folder) (filter (checkpoints c) [0..<k]))"
  have "(\<forall>s'. for_each (epoch T lf c) [0..<nat (epochs c)] s0 = Returned s'
            \<longrightarrow> ?P (nat (epochs c)) s')
       \<and> (\<forall>e s'. for_each (epoch T lf c) [0..<nat (epochs c)] s0 = Raised e s' \<longrightarrow> True)"
  proof (rule for_each_upt_induct [where P = ?P and Q = "\<lambda>s. True"])
    show "?P 0 s0" using preamble_state(3,4) [OF p] by (simp split: option.splits)
  next
    fix i s1 s2
    assume "i < nat (epochs c)" and P: "?P i s1" and r: "epoch T lf c i s1 = Returned s2"
    show "?P (Suc i) s2"
      using P epoch_Returned(3,4) [OF r] by (simp split: option.splits)
  qed simp
  then have "?P (nat (epochs c)) s'" using assms train_unfold [OF p] by simp
  then show "map fst (test_losses (events s')) = filter (evaluates c) [0..<nat (epochs c)]"
    and "saved (events s') =
           (case save_folder T c of None \<Rightarrow> []
            | Some folder \<Rightarrow>
                map (checkpoint_path folder) (filter (checkpoints c) [0..<nat (epochs c)]))"
    by simp_all
qed

lemma train_final_saved_none:
  assumes "savepath c = None"
  shows "saved (events (final (train T c))) = []"
proof -
  obtain lf s0 where p: "preamble T c = (lf, s0)" by (cases "preamble T c") auto
  let ?P = "\<lambda>(k::nat) s. saved (events s) = []"
  have "(\<forall>s'. for_each (epoch T lf c) [0..<nat (epochs c)] s0 = Returned s'
            \<longrightarrow> saved (events s') = [])
       \<and> (\<forall>e s'. for_each (epoch T lf c) [0..<nat (epochs c)] s0 = Raised e s'
            \<longrightarrow> saved (events s') = [])"
  proof (rule for_each_upt_induct [where P = ?P and Q = "\<lambda>s. saved (events s) = []"])
    show "saved (events s0) = []" using preamble_state(4) [OF p] .
  next
    fix i s1 s2 assume "saved (events s1) = []" and "epoch T lf c i s1 = Returned s2"
    then show "saved (events s2) = []"
      using epoch_final_saved_none [OF assms, of T lf i s1] by simp
  next
    fix i s1 e s2 assume "saved (events s1) = []" and "epoch T lf c i s1 = Raised e s2"
    then show "saved (events s2) = []"
      using epoch_final_saved_none [OF assms, of T lf i s1] by simp
  qed
  then show ?thesis using train_unfold [OF p]
    by (cases "for_each (epoch T lf c) [0..<nat (epochs c)] s0") auto
qed

text \<open>
  C1. With a positive \<^verbatim>\<open>update_freq\<close>: an epoch whose 1-based number is no multiple of it leaves
  the stored test loss as it was, whatever the outcome of the epoch; an epoch whose number
  is a multiple stores the total loss of one forward pass over the test batches (made in
  the state that the training pass leaves) divided by the number of these batches, when
  there is at least one; and a run whose test loader yields batches and whose
  \<^verbatim>\<open>save_freq\<close> is not zero returns, having assigned the test loss in exactly the epochs
  whose number is a multiple of \<^verbatim>\<open>update_freq\<close>.
\<close>

theorem test_loss_update_cadence:
  assumes "0 < update_freq c"
  shows "((int i + 1) mod update_freq c \<noteq> 0 \<longrightarrow>
            test_loss (final (epoch T lf c i s)) = test_loss s)
       \<and> ((int i + 1) mod update_freq c = 0 \<and> test_loader c i \<noteq> [] \<longrightarrow>
            test_loss (final (epoch T lf c i s)) =
              sum_list (forward_losses T lf (cuda c) (test_loader c i)
                          (world (train_pass T lf c i s)))
                / real (length (test_loader c i)))
       \<and> (save_freq c \<noteq> 0 \<and> (\<forall>j<nat (epochs c). test_loader c j \<noteq> []) \<longrightarrow>
            (\<exists>s'. train T c = Returned s'
               \<and> map fst (test_losses (events s')) =
                   filter (\<lambda>j. (int j + 1) mod update_freq c = 0) [0..<nat (epochs c)]))"
proof -
  have ev: "evaluates c j \<longleftrightarrow> (int j + 1) mod update_freq c = 0" for j
    using assms by (simp add: evaluates_iff)
  have a: "(int i + 1) mod update_freq c \<noteq> 0 \<longrightarrow>
            test_loss (final (epoch T lf c i s)) = test_loss s"
    using epoch_final_test_loss_skip [of c i T lf s] ev by simp
  have b: "(int i + 1) mod update_freq c = 0 \<and> test_loader c i \<noteq> [] \<longrightarrow>
            test_loss (final (epoch T lf c i s)) =
              sum_list (forward_losses T lf (cuda c) (test_loader c i)
                          (world (train_pass T lf c i s)))
                / real (length (test_loader c i))"
    using epoch_final_test_loss_taken [of c i T lf s] ev by simp
  have d: "save_freq c \<noteq> 0 \<and> (\<forall>j<nat (epochs c). test_loader c j \<noteq> []) \<longrightarrow>
            (\<exists>s'. train T c = Returned s'
               \<and> map fst (test_losses (events s')) =
                   filter (\<lambda>j. (int j + 1) mod update_freq c = 0) [0..<nat (epochs c)])"
  proof
    assume h: "save_freq c \<noteq> 0 \<and> (\<forall>j<nat (epochs c). test_loader c j \<noteq> [])"
    have u: "update_freq c \<noteq> 0" using assms by simp
    obtain s' where s': "train T c = Returned s'"
      using train_returns [OF u, of T] h by blast
    have "evaluates c = (\<lambda>j. (int j + 1) mod update_freq c = 0)"
      by (rule ext) (rule ev)
    then have "filter (evaluates c) [0..<nat (epochs c)] =
            filter (\<lambda>j. (int j + 1) mod update_freq c = 0) [0..<nat (epochs c)]"
      by simp
    then show "\<exists>s'. train T c = Returned s'
               \<and> map fst (test_losses (events s')) =
                   filter (\<lambda>j. (int j + 1) mod update_freq c = 0) [0..<nat (epochs c)]"
      using s' train_Returned_events(1) [OF s'] by simp
  qed
  show ?thesis using a b d by blast
qed

lemmas toy_eval = toy_torch_def toy_args_def epoch_def train_pass_def evaluation_gate_def
  checkpoint_gate_def evaluate_def describe_def py_mod_def np_mean_def save_folder_def
  checkpoint_path_def path_join_def digit_char_def Let_def preamble_def train_def

text \<open>
  With ten epochs and \<^verbatim>\<open>update_freq=3\<close> the test loss is assigned in the epochs 3, 6 and 9.
\<close>

theorem test_loss_update_cadence_witness:
  "0 < update_freq toy_args
   \<and> test_loss (final (epoch toy_torch () toy_args 0
        \<lparr>world = 4, test_loss = 7, index = None, events = []\<rparr>)) = 7
   \<and> test_loss (final (epoch toy_torch () toy_args 2
        \<lparr>world = 4, test_loss = 7, index = None, events = []\<rparr>)) = 5
   \<and> (\<exists>s'. train toy_torch toy_args = Returned s'
        \<and> map (\<lambda>p. Suc (fst p)) (test_losses (events s')) = [3, 6, 9])"
proof -
  let ?s = "\<lparr>world = 4, test_loss = 7, index = None, events = []\<rparr> :: real run"
  have u: "0 < update_freq toy_args" by (simp add: toy_args_def)
  note th = test_loss_update_cadence [OF u]
  have a: "test_loss (final (epoch toy_torch () toy_args 0 ?s)) = 7"
    using th [of 0 toy_torch "()" ?s] by (simp add: toy_args_def)
  have w: "world (train_pass toy_torch () toy_args 2 ?s) = 2"
    by (simp add: toy_eval)
  have b: "test_loss (final (epoch toy_torch () toy_args 2 ?s)) = 5"
    using th [of 2 toy_torch "()" ?s] w
    by (simp add: toy_args_def toy_torch_def)
  have f: "filter (\<lambda>j. (int j + 1) mod 3 = 0) [0..<10] = [2, 5, 8]"
    by (simp add: upt_rec)
  obtain s' where r: "train toy_torch toy_args = Returned s'"
    and m: "map fst (test_losses (events s')) = [2, 5, 8]"
    using th [of 0 toy_torch "()" ?s] f by (auto simp add: toy_args_def)
  have "map (\<lambda>p. Suc (fst p)) (test_losses (events s')) =
          map Suc (map fst (test_losses (events s')))"
    by simp
  then have x: "map (\<lambda>p. Suc (fst p)) (test_losses (events s')) = [3, 6, 9]"
    unfolding m by simp
  show ?thesis
    by (intro conjI exI [of _ s']) (fact u a b r x)+
qed

text \<open>
  C2. Without a save path nothing is saved, whatever \<^verbatim>\<open>save_freq\<close> is and however the run
  ends. An epoch \<open>i\<close> that returns has saved one file, named \<^verbatim>\<open>epoch-<i+1>.dat\<close> in the run
  directory, when \<open>i + 1\<close> is a multiple of \<^verbatim>\<open>save_freq\<close> and there is a save path, and no
  file otherwise. A run with non-zero frequencies and a training loader that yields
  batches returns, and the files it saved are those of the epochs whose number is a
  multiple of \<^verbatim>\<open>save_freq\<close>, in this order.
\<close>

theorem checkpoint_cadence:
  "(savepath c = None \<longrightarrow> saved (events (final (train T c))) = [])
   \<and> (epoch T lf c i s = Returned s' \<longrightarrow>
        saved (events s') = saved (events s) @
          (if (int i + 1) mod save_freq c = 0
           then (case save_folder T c of None \<Rightarrow> []
                 | Some folder \<Rightarrow> [checkpoint_path folder i])
           else []))
   \<and> (update_freq c \<noteq> 0 \<and> save_freq c \<noteq> 0 \<and> (\<forall>j<nat (epochs c). train_loader c j \<noteq> []) \<longrightarrow>
        (\<exists>s'. train T c = Returned s'
           \<and> saved (events s') =
               (case save_folder T c of None \<Rightarrow> []
                | Some folder \<Rightarrow>
                    map (checkpoint_path folder)
                      (filter (\<lambda>j. (int j + 1) mod save_freq c = 0) [0..<nat (epochs c)]))))"
proof (intro conjI impI)
  assume "savepath c = None"
  then show "saved (events (final (train T c))) = []" by (rule train_final_saved_none)
next
  assume r: "epoch T lf c i s = Returned s'"
  have "save_freq c \<noteq> 0" using epoch_Returned(2) [OF r] .
  then have "checkpoints c i \<longleftrightarrow> (int i + 1) mod save_freq c = 0"
    by (simp add: checkpoints_iff)
  then show "saved (events s') = saved (events s) @
          (if (int i + 1) mod save_freq c = 0
           then (case save_folder T c of None \<Rightarrow> []
                 | Some folder \<Rightarrow> [checkpoint_path folder i])
           else [])"
    using epoch_Returned(4) [OF r] by simp
next
  assume h: "update_freq c \<noteq> 0 \<and> save_freq c \<noteq> 0 \<and> (\<forall>j<nat (epochs c). train_loader c j \<noteq> [])"
  then obtain s' where s': "train T c = Returned s'"
    using train_returns [of c T] by blast
  have "checkpoints c = (\<lambda>j. (int j + 1) mod save_freq c = 0)"
    using h by (intro ext) (simp add: checkpoints_iff)
  then show "\<exists>s'. train T c = Returned s'
           \<and> saved (events s') =
               (case save_folder T c of None \<Rightarrow> []
                | Some folder \<Rightarrow>
                    map (checkpoint_path folder)
                      (filter (\<lambda>j. (int j + 1) mod save_freq c = 0) [0..<nat (epochs c)]))"
    using s' train_Returned_events(2) [OF s'] by (simp split: option.splits)
qed

lemma str_nat_5: "str_nat 5 = ''5''"
  by (simp add: str_nat.simps digit_char_def)

lemma str_nat_10: "str_nat 10 = ''10''"
  by (simp add: str_nat.simps [of 10] str_nat.simps [of "Suc 0"] digit_char_def)

text \<open>
  Ten epochs, \<^verbatim>\<open>save_freq=5\<close> and a save path: two files, for the epochs 5 and 10; and no
  file without a save path, also when \<^verbatim>\<open>save_freq\<close> is zero.
\<close>

theorem checkpoint_cadence_witness:
  "update_freq toy_args \<noteq> 0 \<and> save_freq toy_args \<noteq> 0
   \<and> (\<exists>s'. train toy_torch toy_args = Returned s'
        \<and> saved (events s') = [''runs/2019-03-01_12-00-00/epoch-5.dat'',
                                ''runs/2019-03-01_12-00-00/epoch-10.dat''])
   \<and> savepath (toy_args\<lparr>savepath := None, save_freq := 1\<rparr>) = None
   \<and> saved (events (final (train toy_torch (toy_args\<lparr>savepath := None, save_freq := 1\<rparr>)))) = []
   \<and> saved (events (final (train toy_torch (toy_args\<lparr>savepath := None, save_freq := 0\<rparr>)))) = []"
proof -
  let ?s = "\<lparr>world = 4, test_loss = 7, index = None, events = []\<rparr> :: real run"
  have h: "update_freq toy_args \<noteq> 0" "save_freq toy_args \<noteq> 0"
    "\<forall>j<nat (epochs toy_args). train_loader toy_args j \<noteq> []"
    by (simp_all add: toy_args_def)
  have f: "filter (\<lambda>j. (int j + 1) mod 5 = 0) [0..<10] = [4, 9]"
    by (simp add: upt_rec)
  have p: "save_folder toy_torch toy_args = Some ''runs/2019-03-01_12-00-00''"
    by (simp add: toy_torch_def toy_args_def save_folder_def path_join_def)
  have c4: "checkpoint_path ''runs/2019-03-01_12-00-00'' 4 = ''runs/2019-03-01_12-00-00/epoch-5.dat''"
    using str_nat_5 by (simp add: checkpoint_path_def path_join_def)
  have c9: "checkpoint_path ''runs/2019-03-01_12-00-00'' 9 = ''runs/2019-03-01_12-00-00/epoch-10.dat''"
    using str_nat_10 by (simp add: checkpoint_path_def path_join_def)
  have "\<exists>s'. train toy_torch toy_args = Returned s'
           \<and> saved (events s') =
               (case save_folder toy_torch toy_args of None \<Rightarrow> []
                | Some folder \<Rightarrow>
                    map (checkpoint_path folder)
                      (filter (\<lambda>j. (int j + 1) mod save_freq toy_args = 0)
                         [0..<nat (epochs toy_args)]))"
    using checkpoint_cadence [of toy_args toy_torch "()" 0 ?s ?s] h by blast
  moreover have "save_freq toy_args = 5" "nat (epochs toy_args) = 10"
    by (simp_all add: toy_args_def)
  ultimately have a: "\<exists>s'. train toy_torch toy_args = Returned s'
        \<and> saved (events s') = [''runs/2019-03-01_12-00-00/epoch-5.dat'',
                                ''runs/2019-03-01_12-00-00/epoch-10.dat'']"
    using p f c4 c9 by simp
  have n1: "savepath (toy_args\<lparr>savepath := None, save_freq := 1\<rparr>) = None" by simp
  have b1: "saved (events (final (train toy_torch (toy_args\<lparr>savepath := None, save_freq := 1\<rparr>)))) = []"
    using checkpoint_cadence [of "toy_args\<lparr>savepath := None, save_freq := 1\<rparr>" toy_torch "()" 0 ?s ?s]
    by simp
  have b0: "saved (events (final (train toy_torch (toy_args\<lparr>savepath := None, save_freq := 0\<rparr>)))) = []"
    using checkpoint_cadence [of "toy_args\<lparr>savepath := None, save_freq := 0\<rparr>" toy_torch "()" 0 ?s ?s]
    by simp
  show ?thesis
    by (intro conjI) (fact h(1,2) a n1 b1 b0)+
qed

text \<open>
  C7. The divisor of the evaluation is the value of the loop variable \<^verbatim>\<open>index\<close> plus one.
  When the test loader yields batches this is their number. When it yields none,
  \<^verbatim>\<open>index\<close> still holds what an earlier loop left (after a training pass with batches, the
  index of the last training batch) and the division uses that stale value; when no loop
  has bound it, the evaluation raises UnboundLocalError.
\<close>

theorem evaluation_divisor:
  "(evaluate T lf c i s = Returned s' \<longrightarrow>
      (\<exists>k. index s' = Some k
         \<and> test_loss s' =
             sum_list (forward_losses T lf (cuda c) (test_loader c i) (world s)) / real (k + 1)))
   \<and> (test_loader c i \<noteq> [] \<longrightarrow>
        index (final (evaluate T lf c i s)) = Some (length (test_loader c i) - 1))
   \<and> (test_loader c i = [] \<and> index s = Some k \<longrightarrow>
        evaluate T lf c i s =
          Returned (s\<lparr>test_loss := 0 / real (k + 1),
                      events := events s @ [TestLoss i (0 / real (k + 1))]\<rparr>))
   \<and> (test_loader c i = [] \<and> index s = None \<longrightarrow>
        evaluate T lf c i s = Raised UnboundLocalError s)
   \<and> index (train_pass T lf c i s) =
        (if train_loader c i = [] then index s else Some (length (train_loader c i) - 1))"
proof (intro conjI impI)
  assume r: "evaluate T lf c i s = Returned s'"
  then show "\<exists>k. index s' = Some k
         \<and> test_loss s' =
             sum_list (forward_losses T lf (cuda c) (test_loader c i) (world s)) / real (k + 1)"
    by (auto simp add: evaluate_unfold split: option.splits)
next
  assume "test_loader c i \<noteq> []"
  then show "index (final (evaluate T lf c i s)) = Some (length (test_loader c i) - 1)"
    by (simp add: evaluate_nonempty test_batches_index)
next
  assume "test_loader c i = [] \<and> index s = Some k"
  then show "evaluate T lf c i s =
          Returned (s\<lparr>test_loss := 0 / real (k + 1),
                      events := events s @ [TestLoss i (0 / real (k + 1))]\<rparr>)"
    using evaluate_empty_bound [of c i s k T lf] by simp
next
  assume "test_loader c i = [] \<and> index s = None"
  then show "evaluate T lf c i s = Raised UnboundLocalError s"
    using evaluate_empty_unbound [of c i s T lf] by simp
next
  show "index (train_pass T lf c i s) =
        (if train_loader c i = [] then index s else Some (length (train_loader c i) - 1))"
    by (rule train_pass_index)
qed

text \<open>
  An empty test loader with a stale index of 4, with an unbound index, and the index after
  two test batches and after one training batch.
\<close>

theorem evaluation_divisor_witness:
  "evaluate toy_torch () (toy_args\<lparr>test_loader := \<lambda>i. []\<rparr>) 0
       \<lparr>world = 4, test_loss = 7, index = Some 4, events = []\<rparr> =
     Returned \<lparr>world = 4, test_loss = 0, index = Some 4, events = [TestLoss 0 0]\<rparr>
   \<and> evaluate toy_torch () (toy_args\<lparr>test_loader := \<lambda>i. []\<rparr>) 0
       \<lparr>world = 4, test_loss = 7, index = None, events = []\<rparr> =
     Raised UnboundLocalError \<lparr>world = 4, test_loss = 7, index = None, events = []\<rparr>
   \<and> index (final (evaluate toy_torch () toy_args 0
       \<lparr>world = 4, test_loss = 7, index = Some 4, events = []\<rparr>)) = Some 1
   \<and> index (train_pass toy_torch () toy_args 0
       \<lparr>world = 4, test_loss = 7, index = None, events = []\<rparr>) = Some 0"
proof -
  let ?c = "toy_args\<lparr>test_loader := \<lambda>i. []\<rparr>"
  let ?b = "\<lparr>world = 4, test_loss = 7, index = Some 4, events = []\<rparr> :: real run"
  let ?u = "\<lparr>world = 4, test_loss = 7, index = None, events = []\<rparr> :: real run"
  have a: "evaluate toy_torch () ?c 0 ?b =
     Returned \<lparr>world = 4, test_loss = 0, index = Some 4, events = [TestLoss 0 0]\<rparr>"
    using evaluation_divisor [of toy_torch "()" ?c 0 ?b ?b 4] by simp
  have b: "evaluate toy_torch () ?c 0 ?u = Raised UnboundLocalError ?u"
    using evaluation_divisor [of toy_torch "()" ?c 0 ?u ?u 4] by simp
  have c: "index (final (evaluate toy_torch () toy_args 0 ?b)) = Some 1"
    using evaluation_divisor [of toy_torch "()" toy_args 0 ?b ?b 4] by (simp add: toy_args_def)
  have d: "index (train_pass toy_torch () toy_args 0 ?u) = Some 0"
    using evaluation_divisor [of toy_torch "()" toy_args 0 ?u ?u 4] by (simp add: toy_args_def)
  show ?thesis by (intro conjI) (fact a b c d)+
qed

lemma mod_neg_zero_iff: "(a mod (- b) = 0) = (a mod b = (0::int))"
  by (simp add: mod_eq_0_iff_dvd)

lemma evaluates_neg [simp]:
  "evaluates (c\<lparr>update_freq := - update_freq c\<rparr>) i = evaluates c i"
  by (simp add: evaluates_iff mod_neg_zero_iff)











text \<open>
  C10. The stored test loss is zero when the first epoch starts, and every status line of
  an epoch that no evaluation epoch precedes (the first evaluation epoch included, whose
  lines are emitted before its test pass) reports a test loss of zero.
\<close>

theorem initial_test_loss_reported:
  "test_loss (snd (preamble T c)) = 0
   \<and> (Progress i t m \<in> set (events (final (train T c))) \<and> (\<forall>j<i. \<not> evaluates c j) \<longrightarrow> t = 0)"
proof (intro conjI impI)
  show "test_loss (snd (preamble T c)) = 0" by (simp add: preamble_def Let_def)
next
  assume h: "Progress i t m \<in> set (events (final (train T c))) \<and> (\<forall>j<i. \<not> evaluates c j)"
  obtain lf s0 where p: "preamble T c = (lf, s0)" by (cases "preamble T c") auto
  let ?Q = "\<lambda>s. \<forall>j t m. Progress j t m \<in> set (events s) \<longrightarrow> (\<forall>l<j. \<not> evaluates c l) \<longrightarrow> t = 0"
  let ?P = "\<lambda>k s. ?Q s \<and> ((\<forall>l<k. \<not> evaluates c l) \<longrightarrow> test_loss s = 0)"
  have step: "?Q (final (epoch T lf c k s1))" if P: "?P k s1" for k s1
  proof (intro allI impI)
    fix j t' m'
    assume mem: "Progress j t' m' \<in> set (events (final (epoch T lf c k s1)))"
      and ne: "\<forall>l<j. \<not> evaluates c l"
    from epoch_final_progress [OF mem]
    show "t' = 0"
    proof
      assume "Progress j t' m' \<in> set (events s1)"
      then show ?thesis using P ne by blast
    next
      assume "j = k \<and> t' = test_loss s1"
      then show ?thesis using P ne by blast
    qed
  qed
  have "(\<forall>s'. for_each (epoch T lf c) [0..<nat (epochs c)] s0 = Returned s'
            \<longrightarrow> ?P (nat (epochs c)) s')
       \<and> (\<forall>e s'. for_each (epoch T lf c) [0..<nat (epochs c)] s0 = Raised e s' \<longrightarrow> ?Q s')"
  proof (rule for_each_upt_induct [where P = ?P and Q = ?Q])
    show "?P 0 s0" using preamble_state(1,6) [OF p] by simp
  next
    fix k s1 s2
    assume P: "?P k s1" and r: "epoch T lf c k s1 = Returned s2"
    have q: "?Q s2" using step [OF P] r by simp
    have "test_loss s2 = 0" if "\<forall>l<Suc k. \<not> evaluates c l"
    proof -
      have "\<not> evaluates c k" and "\<forall>l<k. \<not> evaluates c l" using that by simp_all
      then show ?thesis using epoch_Returned(5) [OF r] P by simp
    qed
    then show "?P (Suc k) s2" using q by blast
  next
    fix k s1 e s2
    assume P: "?P k s1" and r: "epoch T lf c k s1 = Raised e s2"
    show "?Q s2" using step [OF P] r by simp
  qed
  then have "?Q (final (train T c))" using train_unfold [OF p]
    by (cases "for_each (epoch T lf c) [0..<nat (epochs c)] s0") auto
  then show "t = 0" using h by blast
qed

text \<open>
  A status line of the second epoch of a run with \<^verbatim>\<open>update_freq=3\<close>.
\<close>

theorem initial_test_loss_reported_witness:
  "Progress 1 0 4 \<in> set (events (final (train toy_torch (toy_args\<lparr>epochs := 2\<rparr>))))
   \<and> \<not> evaluates (toy_args\<lparr>epochs := 2\<rparr>) 0
   \<and> test_loss (snd (preamble toy_torch (toy_args\<lparr>epochs := 2\<rparr>))) = 0
   \<and> (0::real) = 0"
proof -
  have r: "train toy_torch (toy_args\<lparr>epochs := 2\<rparr>) =
       Returned \<lparr>world = 1, test_loss = 0, index = Some 0,
                 events = [MakeDirs ''runs/2019-03-01_12-00-00'',
                           Progress 0 0 0, Progress 0 0 16,
                           Progress 1 0 0, Progress 1 0 4]\<rparr>"
    by (simp add: toy_eval upt_rec eval_nat_numeral)
  have a: "Progress 1 0 4 \<in> set (events (final (train toy_torch (toy_args\<lparr>epochs := 2\<rparr>))))"
    by (simp add: r)
  have b: "\<forall>j<1. \<not> evaluates (toy_args\<lparr>epochs := 2\<rparr>) j"
    by (simp add: evaluates_iff toy_args_def)
  from initial_test_loss_reported [of toy_torch "toy_args\<lparr>epochs := 2\<rparr>" 1 0 4] a b
  show ?thesis by simp
qed

end
